theory Spec2Isabelle
  imports Main "HOL-Library.Word" "HOL-Library.AList"
begin

unbundle bit_operations_syntax

section \<open>The H4 transport driver (gd/hal/hci\_hal\_host\_rootcanal.cc)\<close>

type_synonym byte = "8 word"

definition kH4Command :: byte where "kH4Command = 0x01"
definition kH4Acl :: byte where "kH4Acl = 0x02"
definition kH4Sco :: byte where "kH4Sco = 0x03"
definition kH4Event :: byte where "kH4Event = 0x04"

definition kH4HeaderSize :: nat where "kH4HeaderSize = 1"
definition kHciAclHeaderSize :: nat where "kHciAclHeaderSize = 4"
definition kHciScoHeaderSize :: nat where "kHciScoHeaderSize = 3"
definition kHciEvtHeaderSize :: nat where "kHciEvtHeaderSize = 2"
definition kBufSize :: nat where "kBufSize = 1024"

datatype PacketType = CMD | ACL | SCO | EVT

datatype Direction = INCOMING | OUTGOING

text \<open>
  Every way in which \<open>incoming_packet_received\<close> stops without returning: a failed
  \<open>ASSERT\<close> or \<open>ASSERT_LOG\<close> (named after its message), and a \<open>recv\<close> that is told
  to store more bytes than the 1024-byte array \<open>buf\<close> has room for, which is undefined
  behaviour in the source.
\<close>

datatype hal_failure =
    Callback_not_registered
  | Cant_receive_from_socket
  | Malformed_event_header
  | Malformed_event_size
  | Malformed_acl_header
  | Malformed_acl_length
  | Packet_too_long
  | Malformed_sco_header
  | Malformed_sco_size
  | Write_past_end_of_buf

text \<open>
  The driver's fields that the read path touches, and what it does to the outside:
  \<open>sock_unread\<close> are the bytes the peer wrote that have reached the socket and are not
  yet read, \<open>sock_peer_closed\<close> says whether the peer has shut the stream down,
  \<open>btsnoop\<close> is the capture log, \<open>received\<close> the calls made on the registered
  callback (\<open>hciEventReceived\<close>, \<open>aclDataReceived\<close>, \<open>scoDataReceived\<close>) and
  \<open>sigint_raised\<close> records \<open>raise(SIGINT)\<close>.
\<close>

record hal_state =
  incoming_packet_callback_set :: bool
  sock_unread :: "byte list"
  sock_peer_closed :: bool
  btsnoop :: "(Direction \<times> PacketType \<times> byte list) list"
  received :: "(PacketType \<times> byte list) list"
  sigint_raised :: bool

text \<open>
  \<open>recv(sock_fd_, p, len, 0)\<close> on the non-blocking stream socket. With nothing to read
  it returns 0 when the peer has closed and -1 otherwise, whatever \<open>len\<close> is, also
  when \<open>len\<close> is 0. With bytes to read it hands over at most \<open>len\<close> of them and
  returns their number, which is 0 when \<open>len\<close> is 0.
\<close>

definition recv :: "hal_state \<Rightarrow> nat \<Rightarrow> int \<times> byte list \<times> hal_state" where
  "recv st len =
     (if sock_unread st = [] then (if sock_peer_closed st then (0, [], st) else (-1, [], st))
      else (int (min len (length (sock_unread st))), take len (sock_unread st),
            st\<lparr>sock_unread := drop len (sock_unread st)\<rparr>))"

text \<open>
  \<open>recv(sock_fd_, buf + off, len, 0)\<close>: the bytes go into \<open>buf\<close> from index \<open>off\<close>.
  Nothing in \<open>recv\<close> knows where \<open>buf\<close> ends, so bytes that do not fit are written
  past it; the model stops there, keeping the socket as the call left it.
\<close>

definition recv_into ::
  "hal_state \<Rightarrow> byte list \<Rightarrow> nat \<Rightarrow> nat \<Rightarrow> (hal_failure \<times> hal_state) + (int \<times> byte list \<times> hal_state)" where
  "recv_into st buf off len =
     (case recv st len of (n, bytes, st') \<Rightarrow>
        if off + length bytes \<le> length buf
        then Inr (n, take off buf @ bytes @ drop (off + length bytes) buf, st')
        else Inl (Write_past_end_of_buf, st'))"

text \<open>\<open>receivedHciPacket.assign(buf + kH4HeaderSize, buf + kH4HeaderSize + n)\<close>\<close>

definition assign :: "byte list \<Rightarrow> nat \<Rightarrow> byte list" where
  "assign buf n = take n (drop kH4HeaderSize buf)"

definition deliver :: "PacketType \<Rightarrow> byte list \<Rightarrow> hal_state \<Rightarrow> hal_state" where
  "deliver t packet st =
     st\<lparr>btsnoop := btsnoop st @ [(INCOMING, t, packet)], received := received st @ [(t, packet)]\<rparr>"

text \<open>The block \<open>if (buf[0] == kH4Event) { ... }\<close>.\<close>

definition incoming_event ::
  "byte list \<Rightarrow> hal_state \<Rightarrow> (hal_failure \<times> hal_state) + (byte list \<times> hal_state)" where
  "incoming_event buf st =
     (if buf ! 0 = kH4Event then
        (case recv_into st buf kH4HeaderSize kHciEvtHeaderSize of
           Inl e \<Rightarrow> Inl e
         | Inr (received_size, buf1, st1) \<Rightarrow>
             if received_size \<noteq> int kHciEvtHeaderSize then Inl (Malformed_event_header, st1)
             else
               let hci_evt_parameter_total_length = unat (buf1 ! 2) in
               (case recv_into st1 buf1 (kH4HeaderSize + kHciEvtHeaderSize)
                       hci_evt_parameter_total_length of
                  Inl e \<Rightarrow> Inl e
                | Inr (payload_size, buf2, st2) \<Rightarrow>
                    if payload_size \<noteq> int hci_evt_parameter_total_length
                    then Inl (Malformed_event_size, st2)
                    else Inr (buf2,
                      deliver EVT (assign buf2 (kHciEvtHeaderSize + nat payload_size)) st2)))
      else Inr (buf, st))"

text \<open>
  The block \<open>if (buf[0] == kH4Acl) { ... }\<close>. The length is the \<open>uint16_t\<close>
  \<open>buf[4] * 256 + buf[3]\<close>; the payload is received first, then its size is compared
  with the length, and only then is the length compared with the room in \<open>buf\<close>.
\<close>

definition incoming_acl ::
  "byte list \<Rightarrow> hal_state \<Rightarrow> (hal_failure \<times> hal_state) + (byte list \<times> hal_state)" where
  "incoming_acl buf st =
     (if buf ! 0 = kH4Acl then
        (case recv_into st buf kH4HeaderSize kHciAclHeaderSize of
           Inl e \<Rightarrow> Inl e
         | Inr (received_size, buf1, st1) \<Rightarrow>
             if received_size \<noteq> int kHciAclHeaderSize then Inl (Malformed_acl_header, st1)
             else
               let hci_acl_data_total_length =
                     (unat (buf1 ! 4) * 256 + unat (buf1 ! 3)) mod 65536 in
               (case recv_into st1 buf1 (kH4HeaderSize + kHciAclHeaderSize)
                       hci_acl_data_total_length of
                  Inl e \<Rightarrow> Inl e
                | Inr (payload_size, buf2, st2) \<Rightarrow>
                    if payload_size \<noteq> int hci_acl_data_total_length
                    then Inl (Malformed_acl_length, st2)
                    else if \<not> int hci_acl_data_total_length
                              \<le> int kBufSize - int kH4HeaderSize - int kHciAclHeaderSize
                    then Inl (Packet_too_long, st2)
                    else Inr (buf2,
                      deliver ACL (assign buf2 (kHciAclHeaderSize + nat payload_size)) st2)))
      else Inr (buf, st))"

text \<open>The block \<open>if (buf[0] == kH4Sco) { ... }\<close>.\<close>

definition incoming_sco ::
  "byte list \<Rightarrow> hal_state \<Rightarrow> (hal_failure \<times> hal_state) + (byte list \<times> hal_state)" where
  "incoming_sco buf st =
     (if buf ! 0 = kH4Sco then
        (case recv_into st buf kH4HeaderSize kHciScoHeaderSize of
           Inl e \<Rightarrow> Inl e
         | Inr (received_size, buf1, st1) \<Rightarrow>
             if received_size \<noteq> int kHciScoHeaderSize then Inl (Malformed_sco_header, st1)
             else
               let hci_sco_data_total_length = unat (buf1 ! 3) in
               (case recv_into st1 buf1 (kH4HeaderSize + kHciScoHeaderSize)
                       hci_sco_data_total_length of
                  Inl e \<Rightarrow> Inl e
                | Inr (payload_size, buf2, st2) \<Rightarrow>
                    if payload_size \<noteq> int hci_sco_data_total_length
                    then Inl (Malformed_sco_size, st2)
                    else Inr (buf2,
                      deliver SCO (assign buf2 (kHciScoHeaderSize + nat payload_size)) st2)))
      else Inr (buf, st))"

text \<open>
  \<open>incoming_packet_received\<close>: the result is \<open>Inr\<close> of the driver's state when the
  function returns, and \<open>Inl\<close> of the failure and of the state reached when it aborts.
  The three blocks run one after the other on the same \<open>buf\<close>, as the three \<open>if\<close>
  statements of the source do.
\<close>

definition incoming_packet_received :: "hal_state \<Rightarrow> (hal_failure \<times> hal_state) + hal_state" where
  "incoming_packet_received st =
     (if \<not> incoming_packet_callback_set st then Inl (Callback_not_registered, st)
      else
        (case recv_into st (replicate kBufSize 0) 0 kH4HeaderSize of
           Inl e \<Rightarrow> Inl e
         | Inr (received_size, buf, st0) \<Rightarrow>
             if received_size = -1 then Inl (Cant_receive_from_socket, st0)
             else if received_size = 0 then Inr (st0\<lparr>sigint_raised := True\<rparr>)
             else
               (case incoming_event buf st0 of
                  Inl e \<Rightarrow> Inl e
                | Inr (buf1, st1) \<Rightarrow>
                    (case incoming_acl buf1 st1 of
                       Inl e \<Rightarrow> Inl e
                     | Inr (buf2, st2) \<Rightarrow>
                         (case incoming_sco buf2 st2 of
                            Inl e \<Rightarrow> Inl e
                          | Inr (buf3, st3) \<Rightarrow> Inr st3)))))"


section \<open>The LE address manager (gd/hci/le\_address\_manager.cc)\<close>

subsection \<open>Data\<close>

text \<open>
  The class declaration (le\_address\_manager.h), the generated packet classes and the
  \<open>os\<close> and \<open>crypto_toolbox\<close> libraries are not among the sources at hand. The types
  below hold what the functions of le\_address\_manager.cc name and use of them.
\<close>

definition BLE_ADDR_MASK :: byte where "BLE_ADDR_MASK = 0xc0"

datatype AddressPolicy =
    POLICY_NOT_SET
  | USE_PUBLIC_ADDRESS
  | USE_STATIC_ADDRESS
  | USE_NON_RESOLVABLE_ADDRESS
  | USE_RESOLVABLE_ADDRESS

datatype ClientState = WAITING_FOR_PAUSE | PAUSED | WAITING_FOR_RESUME | RESUMED

datatype CommandType =
    ROTATE_RANDOM_ADDRESS
  | ADD_DEVICE_TO_CONNECT_LIST
  | REMOVE_DEVICE_FROM_CONNECT_LIST
  | CLEAR_CONNECT_LIST
  | ADD_DEVICE_TO_RESOLVING_LIST
  | REMOVE_DEVICE_FROM_RESOLVING_LIST
  | CLEAR_RESOLVING_LIST

datatype AddressType = PUBLIC_DEVICE_ADDRESS | RANDOM_DEVICE_ADDRESS

text \<open>\<open>hci::Address\<close>: the six octets \<open>address[0]\<close> to \<open>address[5]\<close>.\<close>

type_synonym Address = "byte list"

type_synonym AddressWithType = "Address \<times> AddressType"

text \<open>
  The command builders are generated code; a built command is kept as the name of its
  builder with the arguments of \<open>Create\<close>.
\<close>

datatype CommandPacketBuilder =
    LeSetRandomAddressBuilder Address
  | LeAddDeviceToConnectListBuilder byte Address
  | LeRemoveDeviceFromConnectListBuilder byte Address
  | LeClearConnectListBuilder
  | LeAddDeviceToResolvingListBuilder byte Address "byte list" "byte list"
  | LeRemoveDeviceFromResolvingListBuilder byte Address
  | LeClearResolvingListBuilder

text \<open>\<open>struct Command\<close>; \<open>command_packet\<close> is a \<open>unique_ptr\<close>, \<open>None\<close> is \<open>nullptr\<close>.\<close>

record Command =
  command_type :: CommandType
  command_packet :: "CommandPacketBuilder option"

datatype OpCode =
    LE_SET_RANDOM_ADDRESS
  | LE_ADD_DEVICE_TO_CONNECT_LIST
  | LE_REMOVE_DEVICE_FROM_CONNECT_LIST
  | LE_CLEAR_CONNECT_LIST
  | LE_ADD_DEVICE_TO_RESOLVING_LIST
  | LE_REMOVE_DEVICE_FROM_RESOLVING_LIST
  | LE_CLEAR_RESOLVING_LIST
  | OTHER_OP_CODE "16 word"

datatype ErrorCode =
    SUCCESS
  | UNKNOWN_HCI_COMMAND
  | HARDWARE_FAILURE
  | MEMORY_CAPACITY_EXCEEDED
  | COMMAND_DISALLOWED
  | INVALID_HCI_COMMAND_PARAMETERS

text \<open>
  The packet views are generated code too. A \<open>CommandCompleteView\<close> is kept as what
  the manager asks of it: \<open>IsValid()\<close> and \<open>GetCommandOpCode()\<close> of the view itself,
  and \<open>IsValid()\<close> and \<open>GetStatus()\<close> of
  \<open>LeSetRandomAddressCompleteView::Create(view)\<close>.
\<close>

record CommandCompleteView =
  IsValid :: bool
  GetCommandOpCode :: OpCode
  LeSetRandomAddressComplete_IsValid :: bool
  LeSetRandomAddressComplete_GetStatus :: ErrorCode

text \<open>
  A registered client is the pointer to its \<open>LeAddressManagerCallback\<close>; the calls
  the manager makes on the callbacks are kept in the order in which they are made.
\<close>

type_synonym client = nat

datatype callback_call = OnPause client | OnResume client

text \<open>\<open>os::Alarm\<close>: idle, or armed to run \<open>prepare_to_rotate\<close> after a delay in ms.\<close>

datatype Alarm = Idle | Scheduled int

text \<open>
  Every way in which a function of the manager stops without returning: a failed
  \<open>ASSERT\<close>, a \<open>LOG_ALWAYS_FATAL\<close>, the undefined behaviours the code can reach
  (a call through a null \<open>address_rotation_alarm_\<close>, a remainder by zero, a signed
  overflow of the 64-bit millisecond counts), and a loop that never ends.
\<close>

datatype failure =
    ASSERT_policy_not_set_yet
  | ASSERT_policy_argument_set
  | ASSERT_no_client_registered
  | ASSERT_two_msb_of_static_address
  | ASSERT_client_is_registered
  | ASSERT_cached_commands_not_empty
  | LOG_ALWAYS_FATAL_static_address_random_part
  | LOG_ALWAYS_FATAL_invalid_parameters
  | LOG_ALWAYS_FATAL_invalid_packet
  | LOG_ALWAYS_FATAL_error_code ErrorCode
  | Null_alarm_dereferenced
  | Remainder_by_zero
  | Signed_overflow
  | Loop_never_ends

text \<open>
  The fields of \<open>LeAddressManager\<close>, and its effects on the outside:
  \<open>enqueued\<close> are the packets handed to \<open>enqueue_command_\<close>, \<open>callback_calls\<close>
  the calls made on the clients, and \<open>random_drawn\<close> the number of octets taken
  from the random generator so far.
\<close>

record LeAddressManager =
  public_address :: Address
  address_policy :: AddressPolicy
  le_address :: AddressWithType
  rotation_irk :: "byte list"
  minimum_rotation_time :: int
  maximum_rotation_time :: int
  address_rotation_alarm :: "Alarm option"
  registered_clients :: "(client \<times> ClientState) list"
  cached_commands :: "Command list"
  enqueued :: "CommandPacketBuilder option list"
  callback_calls :: "callback_call list"
  random_drawn :: nat

subsection \<open>The platform: random octets, 64-bit arithmetic, the client map\<close>

text \<open>
  What \<open>os::GenerateRandom\<close> returns is not decided by the manager: the octets the
  generator will yield are given as \<open>rnd 0\<close>, \<open>rnd 1\<close>, ... and taken in this order.
  \<open>os::GenerateRandom<N>()\<close> takes N octets, \<open>os::GenerateRandom()\<close> takes four and
  returns them as a \<open>uint32_t\<close>.
\<close>

type_synonym random_source = "nat \<Rightarrow> byte"

fun GenerateRandom_octets :: "nat \<Rightarrow> random_source \<Rightarrow> nat \<Rightarrow> byte list" where
  "GenerateRandom_octets 0 rnd pos = []"
| "GenerateRandom_octets (Suc n) rnd pos = rnd pos # GenerateRandom_octets n rnd (Suc pos)"

definition GenerateRandom_uint32 :: "random_source \<Rightarrow> nat \<Rightarrow> 32 word" where
  "GenerateRandom_uint32 rnd pos =
     ucast (rnd pos) + push_bit 8 (ucast (rnd (pos + 1)))
       + push_bit 16 (ucast (rnd (pos + 2))) + push_bit 24 (ucast (rnd (pos + 3)))"

text \<open>The expression \<open>(uint8_t)(os::GenerateRandom() % 0xFE + 1)\<close>.\<close>

definition random_octet_1_to_254 :: "random_source \<Rightarrow> nat \<Rightarrow> byte" where
  "random_octet_1_to_254 rnd pos = ucast (GenerateRandom_uint32 rnd pos mod 0xFE + 1)"

text \<open>\<open>crypto_toolbox::aes_128(key, data, 3)\<close> is taken as it is: sixteen octets.\<close>

type_synonym aes_128 = "byte list \<Rightarrow> byte list \<Rightarrow> byte list"

text \<open>
  \<open>std::chrono::milliseconds\<close> counts in a signed 64-bit integer; \<open>%\<close> truncates
  towards zero.
\<close>

definition in_int64 :: "int \<Rightarrow> bool" where
  "in_int64 x = (- (2 ^ 63) \<le> x \<and> x < 2 ^ 63)"

definition c_rem :: "int \<Rightarrow> int \<Rightarrow> int" where
  "c_rem a b = sgn a * (\<bar>a\<bar> mod \<bar>b\<bar>)"

text \<open>
  Modelled from the spec: the declaration of \<open>registered_clients_\<close> is missing. The
  specification has the registered clients as a set keyed by the client's handle, and
  the functions call \<open>insert\<close>, \<open>find\<close> and \<open>erase\<close> on it and run a range-for
  over it, as on a \<open>std::map\<close> from the callback to its state. The model keeps one
  entry for each key, in the order of the keys; the order only shows in the order of the
  calls made on the clients. \<open>insert\<close> leaves such a map as it is when the key is there
  already.
\<close>

definition map_insert ::
  "client \<Rightarrow> ClientState \<Rightarrow> (client \<times> ClientState) list \<Rightarrow> (client \<times> ClientState) list" where
  "map_insert k v m = (case map_of m k of Some _ \<Rightarrow> m | None \<Rightarrow> insort_key fst (k, v) m)"

subsection \<open>Pausing and resuming the clients\<close>

text \<open>
  The loops of \<open>pause_registered_clients\<close> and \<open>resume_registered_clients\<close> are
  written \<open>for (auto client : registered_clients_)\<close>: \<open>client\<close> is a copy of the map's
  entry, and \<open>client.second = ...\<close> assigns to the copy (\<open>client'\<close> below), which is
  dropped at the end of the iteration. The map itself is not written.
\<close>

definition pause_client :: "client \<times> ClientState \<Rightarrow> LeAddressManager \<Rightarrow> LeAddressManager" where
  "pause_client client s =
     (if snd client \<noteq> PAUSED \<and> snd client \<noteq> WAITING_FOR_PAUSE then
        (let client' = (fst client, WAITING_FOR_PAUSE)
         in s\<lparr>callback_calls := callback_calls s @ [OnPause (fst client')]\<rparr>)
      else s)"

definition pause_registered_clients :: "LeAddressManager \<Rightarrow> LeAddressManager" where
  "pause_registered_clients s = fold pause_client (registered_clients s) s"

definition resume_client :: "client \<times> ClientState \<Rightarrow> LeAddressManager \<Rightarrow> LeAddressManager" where
  "resume_client client s =
     (let client' = (fst client, WAITING_FOR_RESUME)
      in s\<lparr>callback_calls := callback_calls s @ [OnResume (fst client')]\<rparr>)"

definition prepare_to_rotate :: "LeAddressManager \<Rightarrow> LeAddressManager" where
  "prepare_to_rotate s =
     (let command = \<lparr>command_type = ROTATE_RANDOM_ADDRESS, command_packet = None\<rparr>
      in pause_registered_clients (s\<lparr>cached_commands := cached_commands s @ [command]\<rparr>))"

subsection \<open>Registration\<close>

definition register_client :: "LeAddressManager \<Rightarrow> client \<Rightarrow> LeAddressManager" where
  "register_client s callback =
     (let s1 = s\<lparr>registered_clients := map_insert callback RESUMED (registered_clients s)\<rparr>
      in if address_policy s1 = POLICY_NOT_SET \<or> address_policy s1 = USE_RESOLVABLE_ADDRESS
            \<or> address_policy s1 = USE_NON_RESOLVABLE_ADDRESS
         then prepare_to_rotate s1 else s1)"

text \<open>
  \<open>handler_->BindOnceOn(this, f, ...).Invoke()\<close> hands \<open>f\<close> to the manager's handler.
  All entry points of the manager run on that handler one after the other, so the model
  runs \<open>f\<close> at once.
\<close>

definition Register :: "LeAddressManager \<Rightarrow> client \<Rightarrow> AddressPolicy \<times> LeAddressManager" where
  "Register s callback = (let s' = register_client s callback in (address_policy s', s'))"

definition unregister_client :: "LeAddressManager \<Rightarrow> client \<Rightarrow> LeAddressManager" where
  "unregister_client s callback =
     (let s1 = s\<lparr>registered_clients := AList.delete callback (registered_clients s)\<rparr>
      in if registered_clients s1 = [] \<and> address_rotation_alarm s1 \<noteq> None
         then s1\<lparr>address_rotation_alarm := Some Idle\<rparr> else s1)"

definition ack_resume :: "LeAddressManager \<Rightarrow> client \<Rightarrow> failure + LeAddressManager" where
  "ack_resume s callback =
     (case map_of (registered_clients s) callback of
        None \<Rightarrow> Inl ASSERT_client_is_registered
      | Some _ \<Rightarrow>
          Inr (s\<lparr>registered_clients := AList.update callback RESUMED (registered_clients s)\<rparr>))"

subsection \<open>Generating addresses\<close>

definition generate_rpa ::
  "aes_128 \<Rightarrow> random_source \<Rightarrow> LeAddressManager \<Rightarrow> Address \<times> LeAddressManager" where
  "generate_rpa aes rnd s =
     (let prand0 = GenerateRandom_octets 3 rnd (random_drawn s);
          s1 = s\<lparr>random_drawn := random_drawn s + 3\<rparr>;
          BLE_RESOLVE_ADDR_MSB = 0x40;
          prand1 = prand0[2 := prand0 ! 2 AND NOT BLE_ADDR_MASK];
          (prand2, s2) =
            (if (prand1 ! 0 = 0x00 \<and> prand1 ! 1 = 0x00 \<and> prand1 ! 2 = 0x00) \<or>
                (prand1 ! 0 = 0xFF \<and> prand1 ! 1 = 0xFF \<and> prand1 ! 2 = 0x3F)
             then (prand1[0 := random_octet_1_to_254 rnd (random_drawn s1)],
                   s1\<lparr>random_drawn := random_drawn s1 + 4\<rparr>)
             else (prand1, s1));
          prand = prand2[2 := prand2 ! 2 OR BLE_RESOLVE_ADDR_MSB];
          address0 = (replicate 6 0)[3 := prand ! 0, 4 := prand ! 1, 5 := prand ! 2];
          p = aes (rotation_irk s2) prand;
          address = address0[0 := p ! 0, 1 := p ! 1, 2 := p ! 2]
      in (address, s2))"

text \<open>
  The loop \<open>while (address == public_address_)\<close> of \<open>generate_nrpa\<close>, with the
  address and the number of random octets drawn as its state. It ends only when a draw
  gives an address other than the public one: \<open>None\<close> is the loop that never ends.
\<close>

partial_function (option) generate_nrpa_while ::
  "random_source \<Rightarrow> Address \<Rightarrow> Address \<Rightarrow> nat \<Rightarrow> (Address \<times> nat) option" where
  "generate_nrpa_while rnd public address pos =
     (if address = public
      then generate_nrpa_while rnd public (address[0 := random_octet_1_to_254 rnd pos]) (pos + 4)
      else Some (address, pos))"

definition generate_nrpa ::
  "random_source \<Rightarrow> LeAddressManager \<Rightarrow> failure + (Address \<times> LeAddressManager)" where
  "generate_nrpa rnd s =
     (let random0 = GenerateRandom_octets 6 rnd (random_drawn s);
          s1 = s\<lparr>random_drawn := random_drawn s + 6\<rparr>;
          random1 = random0[5 := random0 ! 5 AND NOT BLE_ADDR_MASK];
          (random, s2) =
            (if (random1 ! 0 = 0x00 \<and> random1 ! 1 = 0x00 \<and> random1 ! 2 = 0x00 \<and>
                 random1 ! 3 = 0x00 \<and> random1 ! 4 = 0x00 \<and> random1 ! 5 = 0x00) \<or>
                (random1 ! 0 = 0xFF \<and> random1 ! 1 = 0xFF \<and> random1 ! 2 = 0xFF \<and>
                 random1 ! 3 = 0xFF \<and> random1 ! 4 = 0xFF \<and> random1 ! 5 = 0x3F)
             then (random1[0 := random_octet_1_to_254 rnd (random_drawn s1)],
                   s1\<lparr>random_drawn := random_drawn s1 + 4\<rparr>)
             else (random1, s1))
      in case generate_nrpa_while rnd (public_address s2) random (random_drawn s2) of
           None \<Rightarrow> Inl Loop_never_ends
         | Some (address, pos) \<Rightarrow> Inr (address, s2\<lparr>random_drawn := pos\<rparr>))"

definition get_next_private_address_interval_ms ::
  "random_source \<Rightarrow> LeAddressManager \<Rightarrow> failure + (int \<times> LeAddressManager)" where
  "get_next_private_address_interval_ms rnd s =
     (let interval_random_part_max_ms = maximum_rotation_time s - minimum_rotation_time s
      in if \<not> in_int64 interval_random_part_max_ms then Inl Signed_overflow
         else
           let random = uint (GenerateRandom_uint32 rnd (random_drawn s));
               s1 = s\<lparr>random_drawn := random_drawn s + 4\<rparr>
           in if interval_random_part_max_ms = 0 then Inl Remainder_by_zero
              else
                let random_ms = c_rem random interval_random_part_max_ms
                in if \<not> in_int64 (minimum_rotation_time s + random_ms) then Inl Signed_overflow
                   else Inr (minimum_rotation_time s + random_ms, s1))"

subsection \<open>Issuing the cached commands\<close>

definition rotate_random_address ::
  "aes_128 \<Rightarrow> random_source \<Rightarrow> LeAddressManager \<Rightarrow> failure + LeAddressManager" where
  "rotate_random_address aes rnd s =
     (if address_policy s \<noteq> USE_RESOLVABLE_ADDRESS \<and>
         address_policy s \<noteq> USE_NON_RESOLVABLE_ADDRESS
      then Inr s
      else
        (case address_rotation_alarm s of
           None \<Rightarrow> Inl Null_alarm_dereferenced
         | Some _ \<Rightarrow>
             (case get_next_private_address_interval_ms rnd s of
                Inl e \<Rightarrow> Inl e
              | Inr (delay, s1) \<Rightarrow>
                  let s2 = s1\<lparr>address_rotation_alarm := Some (Scheduled delay)\<rparr> in
                  (case (if address_policy s2 = USE_RESOLVABLE_ADDRESS
                         then Inr (generate_rpa aes rnd s2) else generate_nrpa rnd s2) of
                     Inl e \<Rightarrow> Inl e
                   | Inr (address, s3) \<Rightarrow>
                       let packet = LeSetRandomAddressBuilder address
                       in Inr (s3\<lparr>enqueued := enqueued s3 @ [Some packet],
                                   le_address := (address, RANDOM_DEVICE_ADDRESS)\<rparr>)))))"

definition handle_next_command ::
  "aes_128 \<Rightarrow> random_source \<Rightarrow> LeAddressManager \<Rightarrow> failure + LeAddressManager" where
  "handle_next_command aes rnd s =
     (case cached_commands s of
        [] \<Rightarrow> Inl ASSERT_cached_commands_not_empty
      | command # remaining \<Rightarrow>
          let s1 = s\<lparr>cached_commands := remaining\<rparr>
          in if command_type command = ROTATE_RANDOM_ADDRESS
             then rotate_random_address aes rnd s1
             else Inr (s1\<lparr>enqueued := enqueued s1 @ [command_packet command]\<rparr>))"

definition ack_pause ::
  "aes_128 \<Rightarrow> random_source \<Rightarrow> LeAddressManager \<Rightarrow> client \<Rightarrow> failure + LeAddressManager" where
  "ack_pause aes rnd s callback =
     (case map_of (registered_clients s) callback of
        None \<Rightarrow> Inl ASSERT_client_is_registered
      | Some _ \<Rightarrow>
          let s1 = s\<lparr>registered_clients := AList.update callback PAUSED (registered_clients s)\<rparr>
          in if list_ex (\<lambda>client. snd client \<noteq> PAUSED) (registered_clients s1)
             then Inr s1
             else handle_next_command aes rnd s1)"

definition resume_registered_clients ::
  "aes_128 \<Rightarrow> random_source \<Rightarrow> LeAddressManager \<Rightarrow> failure + LeAddressManager" where
  "resume_registered_clients aes rnd s =
     (if cached_commands s \<noteq> [] then handle_next_command aes rnd s
      else Inr (fold resume_client (registered_clients s) s))"

subsection \<open>Completion events\<close>

definition on_le_set_random_address_complete ::
  "aes_128 \<Rightarrow> random_source \<Rightarrow> LeAddressManager \<Rightarrow> CommandCompleteView
     \<Rightarrow> failure + LeAddressManager" where
  "on_le_set_random_address_complete aes rnd s view =
     (if \<not> LeSetRandomAddressComplete_IsValid view then Inl LOG_ALWAYS_FATAL_invalid_packet
      else if LeSetRandomAddressComplete_GetStatus view \<noteq> SUCCESS
      then Inl (LOG_ALWAYS_FATAL_error_code (LeSetRandomAddressComplete_GetStatus view))
      else if cached_commands s = [] then resume_registered_clients aes rnd s
      else handle_next_command aes rnd s)"

definition OnCommandComplete ::
  "aes_128 \<Rightarrow> random_source \<Rightarrow> LeAddressManager \<Rightarrow> CommandCompleteView
     \<Rightarrow> failure + LeAddressManager" where
  "OnCommandComplete aes rnd s view =
     (if \<not> IsValid view then Inr s
      else if GetCommandOpCode view = LE_SET_RANDOM_ADDRESS \<and>
              address_policy s = USE_STATIC_ADDRESS
      then Inr s
      else if cached_commands s = [] then resume_registered_clients aes rnd s
      else handle_next_command aes rnd s)"


subsection \<open>Setting the policy, and the commands that need the clients paused\<close>

text \<open>
  \<open>SetPrivacyPolicyForInitiatorAddress\<close>. \<open>handler_->Post\<close> hands the command to the
  handler; the model submits it at once.
\<close>

definition SetPrivacyPolicyForInitiatorAddress ::
  "LeAddressManager \<Rightarrow> AddressPolicy \<Rightarrow> AddressWithType \<Rightarrow> byte list \<Rightarrow> int \<Rightarrow> int
     \<Rightarrow> failure + LeAddressManager" where
  "SetPrivacyPolicyForInitiatorAddress s policy fixed_address irk minimum_time maximum_time =
     (if address_policy s \<noteq> POLICY_NOT_SET then Inl ASSERT_policy_not_set_yet
      else if policy = POLICY_NOT_SET then Inl ASSERT_policy_argument_set
      else if registered_clients s \<noteq> [] then Inl ASSERT_no_client_registered
      else
        let s1 = s\<lparr>address_policy := policy\<rparr> in
        (case policy of
           USE_PUBLIC_ADDRESS \<Rightarrow> Inr (s1\<lparr>le_address := fixed_address\<rparr>)
         | USE_STATIC_ADDRESS \<Rightarrow>
             let address = fst fixed_address in
             if address ! 5 AND BLE_ADDR_MASK \<noteq> BLE_ADDR_MASK
             then Inl ASSERT_two_msb_of_static_address
             else if (address ! 0 = 0x00 \<and> address ! 1 = 0x00 \<and> address ! 2 = 0x00 \<and>
                      address ! 3 = 0x00 \<and> address ! 4 = 0x00 \<and> address ! 5 = BLE_ADDR_MASK) \<or>
                     (address ! 0 = 0xFF \<and> address ! 1 = 0xFF \<and> address ! 2 = 0xFF \<and>
                      address ! 3 = 0xFF \<and> address ! 4 = 0xFF \<and> address ! 5 = 0xFF)
             then Inl LOG_ALWAYS_FATAL_static_address_random_part
             else
               let s2 = s1\<lparr>le_address := fixed_address\<rparr>;
                   packet = LeSetRandomAddressBuilder (fst (le_address s2))
               in Inr (s2\<lparr>enqueued := enqueued s2 @ [Some packet]\<rparr>)
         | USE_NON_RESOLVABLE_ADDRESS \<Rightarrow>
             Inr (s1\<lparr>rotation_irk := irk, minimum_rotation_time := minimum_time,
                     maximum_rotation_time := maximum_time,
                     address_rotation_alarm := Some Idle\<rparr>)
         | USE_RESOLVABLE_ADDRESS \<Rightarrow>
             Inr (s1\<lparr>rotation_irk := irk, minimum_rotation_time := minimum_time,
                     maximum_rotation_time := maximum_time,
                     address_rotation_alarm := Some Idle\<rparr>)
         | POLICY_NOT_SET \<Rightarrow> Inl LOG_ALWAYS_FATAL_invalid_parameters))"

text \<open>
  The six functions below end with the same two statements: \<open>pause_registered_clients\<close>
  is handed to the handler, then the command is pushed on \<open>cached_commands_\<close>.
\<close>

definition push_after_pause :: "LeAddressManager \<Rightarrow> Command \<Rightarrow> LeAddressManager" where
  "push_after_pause s command =
     (let s1 = pause_registered_clients s
      in s1\<lparr>cached_commands := cached_commands s1 @ [command]\<rparr>)"

definition AddDeviceToConnectList :: "LeAddressManager \<Rightarrow> byte \<Rightarrow> Address \<Rightarrow> LeAddressManager" where
  "AddDeviceToConnectList s connect_list_address_type address =
     (let packet_builder = LeAddDeviceToConnectListBuilder connect_list_address_type address;
          command = \<lparr>command_type = ADD_DEVICE_TO_CONNECT_LIST,
                     command_packet = Some packet_builder\<rparr>
      in push_after_pause s command)"

definition AddDeviceToResolvingList ::
  "LeAddressManager \<Rightarrow> byte \<Rightarrow> Address \<Rightarrow> byte list \<Rightarrow> byte list \<Rightarrow> LeAddressManager" where
  "AddDeviceToResolvingList s peer_identity_address_type peer_identity_address peer_irk local_irk =
     (let packet_builder = LeAddDeviceToResolvingListBuilder peer_identity_address_type
                             peer_identity_address peer_irk local_irk;
          command = \<lparr>command_type = ADD_DEVICE_TO_RESOLVING_LIST,
                     command_packet = Some packet_builder\<rparr>
      in push_after_pause s command)"

definition RemoveDeviceFromConnectList ::
  "LeAddressManager \<Rightarrow> byte \<Rightarrow> Address \<Rightarrow> LeAddressManager" where
  "RemoveDeviceFromConnectList s connect_list_address_type address =
     (let packet_builder = LeRemoveDeviceFromConnectListBuilder connect_list_address_type address;
          command = \<lparr>command_type = REMOVE_DEVICE_FROM_CONNECT_LIST,
                     command_packet = Some packet_builder\<rparr>
      in push_after_pause s command)"

definition RemoveDeviceFromResolvingList ::
  "LeAddressManager \<Rightarrow> byte \<Rightarrow> Address \<Rightarrow> LeAddressManager" where
  "RemoveDeviceFromResolvingList s peer_identity_address_type peer_identity_address =
     (let packet_builder = LeRemoveDeviceFromResolvingListBuilder peer_identity_address_type
                             peer_identity_address;
          command = \<lparr>command_type = REMOVE_DEVICE_FROM_RESOLVING_LIST,
                     command_packet = Some packet_builder\<rparr>
      in push_after_pause s command)"

definition ClearConnectList :: "LeAddressManager \<Rightarrow> LeAddressManager" where
  "ClearConnectList s =
     (let packet_builder = LeClearConnectListBuilder;
          command = \<lparr>command_type = CLEAR_CONNECT_LIST, command_packet = Some packet_builder\<rparr>
      in push_after_pause s command)"

definition ClearResolvingList :: "LeAddressManager \<Rightarrow> LeAddressManager" where
  "ClearResolvingList s =
     (let packet_builder = LeClearResolvingListBuilder;
          command = \<lparr>command_type = CLEAR_RESOLVING_LIST, command_packet = Some packet_builder\<rparr>
      in push_after_pause s command)"


text \<open>
  Modelled from the spec: the constructor sets \<open>public_address_\<close>, and the initial
  values of the other fields are in the class declaration, which is missing. By the
  specification a new manager has no policy set, no client and no cached command, and
  the alarm exists once a rotating policy is set.
\<close>

definition new_LeAddressManager :: "Address \<Rightarrow> LeAddressManager" where
  "new_LeAddressManager public =
     \<lparr>public_address = public, address_policy = POLICY_NOT_SET,
      le_address = (replicate 6 0x00, PUBLIC_DEVICE_ADDRESS), rotation_irk = replicate 16 0x00,
      minimum_rotation_time = 0, maximum_rotation_time = 0, address_rotation_alarm = None,
      registered_clients = [], cached_commands = [], enqueued = [], callback_calls = [],
      random_drawn = 0\<rparr>"

section \<open>The specification's vocabulary\<close>




text \<open>
  The random bits of an address once the two type bits (the top bits of the last octet)
  are masked: the 22 bits of \<open>prand\<close> in a resolvable address, 46 bits in a
  non-resolvable one. They are degenerate when all 0 or all 1.
\<close>

definition random_bits_rpa :: "Address \<Rightarrow> byte list" where
  "random_bits_rpa address = [address ! 3, address ! 4, address ! 5 AND 0x3F]"

definition random_bits_nrpa :: "Address \<Rightarrow> byte list" where
  "random_bits_nrpa address =
     [address ! 0, address ! 1, address ! 2, address ! 3, address ! 4, address ! 5 AND 0x3F]"

definition all_0_or_all_1 :: "byte list \<Rightarrow> bool" where
  "all_0_or_all_1 bits =
     (bits = replicate (length bits) 0x00 \<or> bits = replicate (length bits - 1) 0xFF @ [0x3F])"

definition rotating :: "AddressPolicy \<Rightarrow> bool" where
  "rotating policy = (policy = USE_RESOLVABLE_ADDRESS \<or> policy = USE_NON_RESOLVABLE_ADDRESS)"

text \<open>
  A random generator is fair to an octet when, from every position on, some later draw
  of \<open>os::GenerateRandom() % 0xFE + 1\<close> differs from it.
\<close>

definition fair_random :: "random_source \<Rightarrow> byte \<Rightarrow> bool" where
  "fair_random rnd octet = (\<forall>p. \<exists>k. random_octet_1_to_254 rnd (p + 4 * k) \<noteq> octet)"

text \<open>
  The rotation times are 64-bit counts, the minimum is below the maximum and their
  difference is a 64-bit count too.
\<close>

definition rotation_interval_ok :: "LeAddressManager \<Rightarrow> bool" where
  "rotation_interval_ok s =
     (in_int64 (minimum_rotation_time s) \<and> in_int64 (maximum_rotation_time s) \<and>
      in_int64 (maximum_rotation_time s - minimum_rotation_time s) \<and>
      minimum_rotation_time s < maximum_rotation_time s)"

text \<open>
  What reaches the controller when a cached command is taken from the queue in state
  \<open>s\<close>, the manager ending in \<open>s'\<close>: the packet of the command; for a rotation, the
  new random address under a rotating policy and nothing under any other.
\<close>

definition issued_for ::
  "Command \<Rightarrow> LeAddressManager \<Rightarrow> LeAddressManager \<Rightarrow> CommandPacketBuilder option list" where
  "issued_for command s s' =
     (if command_type command \<noteq> ROTATE_RANDOM_ADDRESS then [command_packet command]
      else if rotating (address_policy s)
      then [Some (LeSetRandomAddressBuilder (fst (le_address s')))]
      else [])"

section \<open>Concrete inputs\<close>

definition listening_hal :: "byte list \<Rightarrow> hal_state" where
  "listening_hal unread =
     \<lparr>incoming_packet_callback_set = True, sock_unread = unread, sock_peer_closed = False,
      btsnoop = [], received = [], sigint_raised = False\<rparr>"

definition example_public_address :: Address where
  "example_public_address = [0x00, 0x01, 0x02, 0x03, 0x04, 0x05]"

definition example_peer_address :: Address where
  "example_peer_address = [0xA1, 0xA2, 0xA3, 0xA4, 0xA5, 0xA6]"

definition example_aes :: aes_128 where
  "example_aes key data = replicate 16 0x00"

definition zero_random :: random_source where
  "zero_random n = 0"

definition counting_random :: random_source where
  "counting_random n = of_nat n"

definition rotate_command :: Command where
  "rotate_command = \<lparr>command_type = ROTATE_RANDOM_ADDRESS, command_packet = None\<rparr>"

definition add_command :: Command where
  "add_command = \<lparr>command_type = ADD_DEVICE_TO_CONNECT_LIST,
                   command_packet = Some (LeAddDeviceToConnectListBuilder 0x00 example_peer_address)\<rparr>"

definition add_complete :: CommandCompleteView where
  "add_complete = \<lparr>IsValid = True, GetCommandOpCode = LE_ADD_DEVICE_TO_CONNECT_LIST,
                    LeSetRandomAddressComplete_IsValid = False,
                    LeSetRandomAddressComplete_GetStatus = SUCCESS\<rparr>"

definition rotation_disallowed :: CommandCompleteView where
  "rotation_disallowed = \<lparr>IsValid = True, GetCommandOpCode = LE_SET_RANDOM_ADDRESS,
                    LeSetRandomAddressComplete_IsValid = True,
                    LeSetRandomAddressComplete_GetStatus = COMMAND_DISALLOWED\<rparr>"

definition undecodable :: CommandCompleteView where
  "undecodable = \<lparr>IsValid = False, GetCommandOpCode = OTHER_OP_CODE 0,
                    LeSetRandomAddressComplete_IsValid = False,
                    LeSetRandomAddressComplete_GetStatus = SUCCESS\<rparr>"

text \<open>
  The manager once \<open>SetPrivacyPolicyForInitiatorAddress\<close> has been called on a new one
  with the given policy and the rotation times 1000 ms and 2000 ms (a new manager when
  the call fails, as it does for \<open>POLICY_NOT_SET\<close>).
\<close>

definition configured :: "AddressPolicy \<Rightarrow> LeAddressManager" where
  "configured policy =
     (case SetPrivacyPolicyForInitiatorAddress (new_LeAddressManager example_public_address)
             policy (example_public_address, PUBLIC_DEVICE_ADDRESS) (replicate 16 0x00)
             1000 2000 of
        Inr s \<Rightarrow> s
      | Inl _ \<Rightarrow> new_LeAddressManager example_public_address)"

text \<open>
  A manager with the given policy, one client (the callback 1) recorded in the given
  state, and the given cached commands.
\<close>

definition one_client :: "AddressPolicy \<Rightarrow> ClientState \<Rightarrow> Command list \<Rightarrow> LeAddressManager" where
  "one_client policy state commands =
     (configured policy)\<lparr>registered_clients := [(1, state)], cached_commands := commands\<rparr>"

lemmas example_defs = one_client_def configured_def SetPrivacyPolicyForInitiatorAddress_def
  new_LeAddressManager_def example_public_address_def example_peer_address_def
  rotate_command_def add_command_def add_complete_def rotation_disallowed_def
  undecodable_def rotating_def


section \<open>The transport driver: reading one frame\<close>

subsection \<open>Reads that find their bytes\<close>

lemma recv_into_frame:
  assumes "sock_unread st = bytes @ rest" "length bytes = len" "off + len \<le> length buf"
    and "0 < len \<or> rest \<noteq> [] \<or> sock_peer_closed st"
  shows "recv_into st buf off len =
           Inr (int len, take off buf @ bytes @ drop (off + len) buf, st\<lparr>sock_unread := rest\<rparr>)"
proof (cases "bytes @ rest = []")
  case True
  with assms have "sock_peer_closed st" and "sock_unread st = []" and "len = 0" and "rest = []"
    by auto
  with True assms(3) show ?thesis by (simp add: recv_into_def recv_def)
next
  case False
  with assms(1,2,3) show ?thesis by (auto simp add: recv_into_def recv_def)
qed

lemma recv_into_zero_tail:
  assumes "sock_unread st = bytes @ rest" "length bytes \<le> n" "length pre = off" "length bytes = len"
    and "0 < len \<or> rest \<noteq> [] \<or> sock_peer_closed st"
  shows "recv_into st (pre @ replicate n 0) off len =
           Inr (int len, (pre @ bytes) @ replicate (n - len) 0, st\<lparr>sock_unread := rest\<rparr>)"
  using recv_into_frame [of st bytes rest len off "pre @ replicate n 0"] assms
  by simp


lemma recv_all:
  assumes "sock_unread st = bytes @ rest" "length bytes = len" "0 < len"
  shows "recv st len = (int len, bytes, st\<lparr>sock_unread := rest\<rparr>)"
  using assms by (auto simp add: recv_def)

lemma recv_short:
  assumes "sock_unread st = bytes" "bytes \<noteq> []" "length bytes < len"
  shows "recv st len = (int (length bytes), bytes, st\<lparr>sock_unread := []\<rparr>)"
  using assms by (auto simp add: recv_def)

subsection \<open>The three blocks on a frame that has arrived\<close>



lemma acl_length_less: "(unat (b :: byte) * 256 + unat (c :: byte)) < 65536"
  using unsigned_less [of b, where ?'a = nat] unsigned_less [of c, where ?'a = nat] by simp



lemma acl_payload_past_buf:
  assumes "length header = 4"
    and "length payload = unat (header ! 2) + 256 * unat (header ! 3)"
    and "1019 < length payload"
  shows "incoming_acl ([kH4Acl] @ replicate 1023 0) (st\<lparr>sock_unread := header @ payload @ rest\<rparr>)
    = Inl (Write_past_end_of_buf, st\<lparr>sock_unread := rest\<rparr>)"
proof -
  let ?st1 = "st\<lparr>sock_unread := header @ payload @ rest\<rparr>"
  let ?st2 = "st\<lparr>sock_unread := payload @ rest\<rparr>"
  let ?st3 = "st\<lparr>sock_unread := rest\<rparr>"
  let ?B1 = "([kH4Acl] @ header) @ replicate 1019 0"
  have n0: "([kH4Acl] @ replicate 1023 0) ! 0 = kH4Acl" by simp
  have r1: "recv_into ?st1 ([kH4Acl] @ replicate 1023 0) kH4HeaderSize kHciAclHeaderSize
     = Inr (int kHciAclHeaderSize, ?B1, ?st2)"
    using recv_into_zero_tail [of ?st1 header "payload @ rest" 1023 "[kH4Acl]" kH4HeaderSize kHciAclHeaderSize] assms(1)
    by (simp add: kH4HeaderSize_def kHciAclHeaderSize_def)
  have n2: "(unat (?B1 ! 4) * 256 + unat (?B1 ! 3)) mod 65536 = length payload"
    using assms(1,2) acl_length_less [of "header ! 3" "header ! 2"]
    by (simp add: nth_Cons' nth_append)
  have "payload \<noteq> []" using assms(3) by auto
  then have "recv ?st2 (length payload) = (int (length payload), payload, ?st3)"
    using recv_all [of ?st2 payload rest "length payload"] by simp
  then have r2: "recv_into ?st2 ?B1 (kH4HeaderSize + kHciAclHeaderSize) (length payload)
     = Inl (Write_past_end_of_buf, ?st3)"
    using assms(1,3) by (simp add: recv_into_def kH4HeaderSize_def kHciAclHeaderSize_def)
  show ?thesis
    by (simp only: incoming_acl_def n0 r1 Let_def n2 r2 sum.case prod.case if_True if_False simp_thms)
qed

lemma acl_payload_short:
  assumes "length header = 4"
    and "length partial < unat (header ! 2) + 256 * unat (header ! 3)"
    and "partial \<noteq> []" and "length partial \<le> 1019"
  shows "incoming_acl ([kH4Acl] @ replicate 1023 0) (st\<lparr>sock_unread := header @ partial\<rparr>)
    = Inl (Malformed_acl_length, st\<lparr>sock_unread := []\<rparr>)"
proof -
  let ?st1 = "st\<lparr>sock_unread := header @ partial\<rparr>"
  let ?st2 = "st\<lparr>sock_unread := partial\<rparr>"
  let ?st3 = "st\<lparr>sock_unread := []\<rparr>"
  let ?B1 = "([kH4Acl] @ header) @ replicate 1019 0"
  let ?L = "unat (header ! 2) + 256 * unat (header ! 3)"
  let ?B2 = "take (kH4HeaderSize + kHciAclHeaderSize) ?B1 @ partial @
               drop (kH4HeaderSize + kHciAclHeaderSize + length partial) ?B1"
  have n0: "([kH4Acl] @ replicate 1023 0) ! 0 = kH4Acl" by simp
  have r1: "recv_into ?st1 ([kH4Acl] @ replicate 1023 0) kH4HeaderSize kHciAclHeaderSize
     = Inr (int kHciAclHeaderSize, ?B1, ?st2)"
    using recv_into_zero_tail [of ?st1 header partial 1023 "[kH4Acl]" kH4HeaderSize kHciAclHeaderSize] assms(1)
    by (simp add: kH4HeaderSize_def kHciAclHeaderSize_def)
  have n2: "(unat (?B1 ! 4) * 256 + unat (?B1 ! 3)) mod 65536 = ?L"
    using assms(1) acl_length_less [of "header ! 3" "header ! 2"]
    by (simp add: nth_Cons' nth_append)
  have "recv ?st2 ?L = (int (length partial), partial, ?st3)"
    using recv_short [of ?st2 partial ?L] assms(2,3) by simp
  then have r2: "recv_into ?st2 ?B1 (kH4HeaderSize + kHciAclHeaderSize) ?L
     = Inr (int (length partial), ?B2, ?st3)"
    using assms(1,4) by (simp add: recv_into_def kH4HeaderSize_def kHciAclHeaderSize_def)
  have "length partial \<noteq> ?L" using assms(2) by simp
  then have ne: "int (length partial) \<noteq> int ?L" by (simp only: of_nat_eq_iff not_False_eq_True)
  show ?thesis
    by (simp only: incoming_acl_def n0 r1 Let_def n2 r2 ne sum.case prod.case if_True if_False simp_thms)
qed

lemma recv_into_long:
  assumes "1019 < L" and "length buf = 1024"
  shows "(\<exists>e st'. recv_into st buf 5 L = Inl (e, st')) \<or>
         (\<exists>n buf' st'. recv_into st buf 5 L = Inr (n, buf', st') \<and> n \<noteq> int L)"
proof (cases "sock_unread st = []")
  case True
  with assms show ?thesis by (simp add: recv_into_def recv_def)
next
  case False
  show ?thesis
  proof (cases "5 + min L (length (sock_unread st)) \<le> 1024")
    case True
    with assms(1) have "min L (length (sock_unread st)) \<noteq> L" by simp
    then have "int (min L (length (sock_unread st))) \<noteq> int L"
      by (simp only: of_nat_eq_iff not_False_eq_True)
    with True False assms show ?thesis
      by (simp add: recv_into_def recv_def)
  next
    case over: False
    with False assms show ?thesis by (simp add: recv_into_def recv_def)
  qed
qed

lemma acl_too_long_aborts:
  assumes "length header = 4"
    and "1019 < unat (header ! 2) + 256 * unat (header ! 3)"
  shows "\<exists>e st'. incoming_acl ([kH4Acl] @ replicate 1023 0) (st\<lparr>sock_unread := header @ rest\<rparr>)
           = Inl (e, st')"
proof -
  let ?st1 = "st\<lparr>sock_unread := header @ rest\<rparr>"
  let ?st2 = "st\<lparr>sock_unread := rest\<rparr>"
  let ?B1 = "([kH4Acl] @ header) @ replicate 1019 0"
  let ?L = "unat (header ! 2) + 256 * unat (header ! 3)"
  have n0: "([kH4Acl] @ replicate 1023 0) ! 0 = kH4Acl" by simp
  have r1: "recv_into ?st1 ([kH4Acl] @ replicate 1023 0) kH4HeaderSize kHciAclHeaderSize
     = Inr (int kHciAclHeaderSize, ?B1, ?st2)"
    using recv_into_zero_tail [of ?st1 header rest 1023 "[kH4Acl]" kH4HeaderSize kHciAclHeaderSize] assms(1)
    by (simp add: kH4HeaderSize_def kHciAclHeaderSize_def)
  have n2: "(unat (?B1 ! 4) * 256 + unat (?B1 ! 3)) mod 65536 = ?L"
    using assms(1) acl_length_less [of "header ! 3" "header ! 2"]
    by (simp add: nth_Cons' nth_append)
  have len: "length ?B1 = 1024" using assms(1) by simp
  have r2: "(\<exists>e st'. recv_into ?st2 ?B1 (kH4HeaderSize + kHciAclHeaderSize) ?L = Inl (e, st')) \<or>
            (\<exists>n buf' st'. recv_into ?st2 ?B1 (kH4HeaderSize + kHciAclHeaderSize) ?L = Inr (n, buf', st')
               \<and> n \<noteq> int ?L)"
    using recv_into_long [OF assms(2) len, of ?st2]
    by (simp add: kH4HeaderSize_def kHciAclHeaderSize_def)
  from r2 show ?thesis
  proof
    assume "\<exists>e st'. recv_into ?st2 ?B1 (kH4HeaderSize + kHciAclHeaderSize) ?L = Inl (e, st')"
    then obtain e st' where "recv_into ?st2 ?B1 (kH4HeaderSize + kHciAclHeaderSize) ?L = Inl (e, st')"
      by blast
    then show ?thesis
      by (simp only: incoming_acl_def n0 r1 Let_def n2 sum.case prod.case if_True if_False simp_thms) blast
  next
    assume "\<exists>n buf' st'. recv_into ?st2 ?B1 (kH4HeaderSize + kHciAclHeaderSize) ?L = Inr (n, buf', st')
               \<and> n \<noteq> int ?L"
    then obtain n buf' st' where "recv_into ?st2 ?B1 (kH4HeaderSize + kHciAclHeaderSize) ?L = Inr (n, buf', st')"
      and "n \<noteq> int ?L" by blast
    then show ?thesis
      by (simp only: incoming_acl_def n0 r1 Let_def n2 sum.case prod.case if_True if_False simp_thms) blast
  qed
qed

subsection \<open>A frame without payload that ends what has arrived\<close>




subsection \<open>The whole function\<close>

lemma incoming_event_skip: "buf ! 0 \<noteq> kH4Event \<Longrightarrow> incoming_event buf st = Inr (buf, st)"
  by (simp add: incoming_event_def)

lemma incoming_acl_skip: "buf ! 0 \<noteq> kH4Acl \<Longrightarrow> incoming_acl buf st = Inr (buf, st)"
  by (simp add: incoming_acl_def)

lemma incoming_sco_skip: "buf ! 0 \<noteq> kH4Sco \<Longrightarrow> incoming_sco buf st = Inr (buf, st)"
  by (simp add: incoming_sco_def)

lemma after_tag:
  assumes "incoming_packet_callback_set st" "sock_unread st = [tag] @ rest"
  shows "incoming_packet_received st =
     (case incoming_event ([tag] @ replicate 1023 0) (st\<lparr>sock_unread := rest\<rparr>) of
        Inl e \<Rightarrow> Inl e
      | Inr (buf1, st1) \<Rightarrow>
          (case incoming_acl buf1 st1 of
             Inl e \<Rightarrow> Inl e
           | Inr (buf2, st2) \<Rightarrow>
               (case incoming_sco buf2 st2 of
                  Inl e \<Rightarrow> Inl e
                | Inr (buf3, st3) \<Rightarrow> Inr st3)))"
proof -
  have "recv_into st (replicate kBufSize 0) 0 kH4HeaderSize =
           Inr (1, [tag] @ replicate 1023 0, st\<lparr>sock_unread := rest\<rparr>)"
    using recv_into_zero_tail [of st "[tag]" rest 1024 "[]" 0 1] assms
    by (simp add: kBufSize_def kH4HeaderSize_def)
  then show ?thesis
    using assms(1) by (simp add: incoming_packet_received_def)
qed

lemma acl_too_long_never_delivered:
  assumes "incoming_packet_callback_set st"
    and "sock_unread st = [kH4Acl] @ header @ rest"
    and "length header = 4"
    and "1019 < unat (header ! 2) + 256 * unat (header ! 3)"
  shows "\<exists>e st'. incoming_packet_received st = Inl (e, st')"
proof -
  have ev: "incoming_event ([kH4Acl] @ replicate 1023 0) (st\<lparr>sock_unread := header @ rest\<rparr>)
          = Inr ([kH4Acl] @ replicate 1023 0, st\<lparr>sock_unread := header @ rest\<rparr>)"
    by (rule incoming_event_skip) (simp add: kH4Acl_def kH4Event_def)
  obtain e st' where "incoming_acl ([kH4Acl] @ replicate 1023 0) (st\<lparr>sock_unread := header @ rest\<rparr>)
           = Inl (e, st')"
    using acl_too_long_aborts [OF assms(3,4)] by blast
  then show ?thesis
    unfolding after_tag [OF assms(1,2)] ev by simp
qed




text \<open>
  Claim C10. When the first byte is none of the tags Event, ACL and SCO (the tag
  Command, say), the function takes that byte from the stream and returns: nothing more
  is read, no packet is delivered or captured, and nothing fails.
\<close>

theorem unknown_tag_is_dropped:
  assumes "incoming_packet_callback_set st"
    and "sock_unread st = [tag] @ rest"
    and "tag \<noteq> kH4Event" and "tag \<noteq> kH4Acl" and "tag \<noteq> kH4Sco"
  shows "incoming_packet_received st = Inr (st\<lparr>sock_unread := rest\<rparr>)"
  using assms(3-5)
  by (simp add: after_tag [OF assms(1,2)] incoming_event_skip incoming_acl_skip incoming_sco_skip)

theorem unknown_tag_is_dropped_witness:
  "incoming_packet_callback_set (listening_hal [0x01, 0x03, 0x0C, 0x00]) \<and>
   sock_unread (listening_hal [0x01, 0x03, 0x0C, 0x00]) = [0x01] @ [0x03, 0x0C, 0x00] \<and>
   (0x01 :: byte) \<noteq> kH4Event \<and> (0x01 :: byte) \<noteq> kH4Acl \<and> (0x01 :: byte) \<noteq> kH4Sco \<and>
   incoming_packet_received (listening_hal [0x01, 0x03, 0x0C, 0x00]) = Inr (listening_hal [0x03, 0x0C, 0x00])"
  using unknown_tag_is_dropped [of "listening_hal [0x01, 0x03, 0x0C, 0x00]" "0x01" "[0x03, 0x0C, 0x00]"]
  by (simp add: listening_hal_def kH4Event_def kH4Acl_def kH4Sco_def)

text \<open>
  Claim C4. An ACL frame that declares 1020 payload bytes makes 1025 bytes with its tag
  and header. The claim is that the driver stops before it reads any payload byte. The
  driver receives the payload first. When the 1020 bytes are there, they all go into
  the 1019 bytes left of \<open>buf\<close>: the stream is empty afterwards and the last byte is
  written past the end of \<open>buf\<close>. When only two of them are there yet, these two are
  taken from the stream into \<open>buf\<close> and the driver stops on the size of what it
  received. The comparison of the length with the room in \<open>buf\<close> stands after both.
\<close>

theorem acl_length_checked_after_read:
  "incoming_packet_received
     (listening_hal ([0x02] @ [0x01, 0x20, 0xFC, 0x03] @ replicate 1020 0x55 @ []))
     = Inl (Write_past_end_of_buf, listening_hal []) \<and>
   incoming_packet_received (listening_hal ([0x02] @ [0x01, 0x20, 0xFC, 0x03] @ [0x55, 0x55]))
     = Inl (Malformed_acl_length, listening_hal [])"
proof -
  have ev: "incoming_event ([kH4Acl] @ replicate 1023 0) st' = Inr ([kH4Acl] @ replicate 1023 0, st')"
    for st'
    by (rule incoming_event_skip) (simp add: kH4Acl_def kH4Event_def)
  have fin: "(listening_hal unread)\<lparr>sock_unread := []\<rparr> = listening_hal []" for unread
    by (simp add: listening_hal_def)
  let ?whole = "listening_hal ([0x02] @ [0x01, 0x20, 0xFC, 0x03] @ replicate 1020 0x55 @ [])"
  have cb: "incoming_packet_callback_set ?whole" by (simp add: listening_hal_def)
  have un: "sock_unread ?whole = [kH4Acl] @ ([0x01, 0x20, 0xFC, 0x03] @ replicate 1020 0x55 @ [])"
    by (simp add: listening_hal_def kH4Acl_def)
  have acl: "incoming_acl ([kH4Acl] @ replicate 1023 0)
       (?whole\<lparr>sock_unread := [0x01, 0x20, 0xFC, 0x03] @ replicate 1020 0x55 @ []\<rparr>)
     = Inl (Write_past_end_of_buf, ?whole\<lparr>sock_unread := []\<rparr>)"
    by (rule acl_payload_past_buf) simp_all
  have whole: "incoming_packet_received ?whole = Inl (Write_past_end_of_buf, listening_hal [])"
    unfolding after_tag [OF cb un] ev using acl fin by simp
  let ?part = "listening_hal ([0x02] @ [0x01, 0x20, 0xFC, 0x03] @ [0x55, 0x55])"
  have cb': "incoming_packet_callback_set ?part" by (simp add: listening_hal_def)
  have un': "sock_unread ?part = [kH4Acl] @ ([0x01, 0x20, 0xFC, 0x03] @ [0x55, 0x55])"
    by (simp add: listening_hal_def kH4Acl_def)
  have acl': "incoming_acl ([kH4Acl] @ replicate 1023 0)
       (?part\<lparr>sock_unread := [0x01, 0x20, 0xFC, 0x03] @ [0x55, 0x55]\<rparr>)
     = Inl (Malformed_acl_length, ?part\<lparr>sock_unread := []\<rparr>)"
    by (rule acl_payload_short) simp_all
  have part: "incoming_packet_received ?part = Inl (Malformed_acl_length, listening_hal [])"
    unfolding after_tag [OF cb' un'] ev using acl' fin by simp
  from whole part show ?thesis by simp
qed

section \<open>The address manager: generated addresses\<close>

subsection \<open>The redrawn octet lies between 1 and 254\<close>

lemma unat_mod_254: "unat ((r :: 32 word) mod 0xFE + 1) = unat r mod 254 + 1"
proof -
  have a: "unat (r mod 0xFE) = unat r mod 254" by (simp add: unat_mod)
  have "unat r mod 254 < 254" by simp
  then have "unat (r mod 0xFE) + unat (1 :: 32 word) < 2 ^ LENGTH(32)" using a by simp
  then have "unat (r mod 0xFE + 1) = unat (r mod 0xFE) + unat (1 :: 32 word)"
    using unat_add_lem [of "r mod 0xFE" 1] by blast
  then show ?thesis using a by simp
qed

lemma random_octet_unat: "unat (random_octet_1_to_254 rnd pos) = unat (GenerateRandom_uint32 rnd pos) mod 254 + 1"
proof -
  have "unat (GenerateRandom_uint32 rnd pos) mod 254 < 254" by simp
  then show ?thesis
    by (simp add: random_octet_1_to_254_def unsigned_ucast_eq unat_mod_254 take_bit_nat_eq_self)
qed

lemma random_octet_not_0: "random_octet_1_to_254 rnd pos \<noteq> 0"
  using random_octet_unat [of rnd pos] by (metis Suc_eq_plus1 nat.distinct(1) unat_0 unsigned_0)

lemma random_octet_not_FF: "random_octet_1_to_254 rnd pos \<noteq> 0xFF"
proof
  assume "random_octet_1_to_254 rnd pos = 0xFF"
  then have "unat (random_octet_1_to_254 rnd pos) = 255" by simp
  moreover have "unat (GenerateRandom_uint32 rnd pos) mod 254 < 254" by simp
  ultimately show False using random_octet_unat [of rnd pos] by simp
qed

subsection \<open>Resolvable addresses\<close>

lemma mask_type_bits: "((r :: byte) AND NOT BLE_ADDR_MASK OR 0x40) AND 0x3F = r AND NOT BLE_ADDR_MASK"
  unfolding BLE_ADDR_MASK_def
  by (rule bit_word_eqI) (auto simp add: bit_simps numeral_eq_Suc less_Suc_eq)

lemma mask_type_bits2: "((r :: byte) AND NOT BLE_ADDR_MASK) AND 0x3F = r AND NOT BLE_ADDR_MASK"
  unfolding BLE_ADDR_MASK_def
  by (rule bit_word_eqI) (auto simp add: bit_simps numeral_eq_Suc less_Suc_eq)

lemma octets3: "GenerateRandom_octets 3 rnd p = [rnd p, rnd (Suc p), rnd (Suc (Suc p))]"
  by (simp add: numeral_3_eq_3)

lemma octets6: "GenerateRandom_octets 6 rnd p =
  [rnd p, rnd (Suc p), rnd (Suc (Suc p)), rnd (Suc (Suc (Suc p))), rnd (Suc (Suc (Suc (Suc p)))),
   rnd (Suc (Suc (Suc (Suc (Suc p)))))]"
  by (simp add: eval_nat_numeral)

lemma generate_rpa_not_degenerate:
  "\<not> all_0_or_all_1 (random_bits_rpa (fst (generate_rpa aes rnd s)))"
  using random_octet_not_0 [of rnd "random_drawn s + 3"] random_octet_not_FF [of rnd "random_drawn s + 3"]
  by (auto simp add: generate_rpa_def octets3 Let_def random_bits_rpa_def all_0_or_all_1_def
        eval_nat_numeral mask_type_bits split: if_splits)


lemma generate_rpa_frame: "\<exists>n. snd (generate_rpa aes rnd s) = s\<lparr>random_drawn := n\<rparr>"
  by (auto simp add: generate_rpa_def Let_def split: if_splits prod.splits)

subsection \<open>Non-resolvable addresses: the loop\<close>

lemma generate_nrpa_while_result:
  assumes "generate_nrpa_while rnd public address pos = Some r"
  shows "fst r \<noteq> public \<and>
     (fst r = address \<or> (\<exists>p. fst r = address[0 := random_octet_1_to_254 rnd p]))"
proof (rule generate_nrpa_while.raw_induct
    [where P = "\<lambda>rnd public address pos r. fst r \<noteq> public \<and>
       (fst r = address \<or> (\<exists>p. fst r = address[0 := random_octet_1_to_254 rnd p]))",
     OF _ assms])
  fix loop :: "random_source \<Rightarrow> Address \<Rightarrow> Address \<Rightarrow> nat \<Rightarrow> (Address \<times> nat) option"
  fix rnd public address pos r
  assume IH: "\<And>rnd public address pos r. loop rnd public address pos = Some r \<Longrightarrow>
     fst r \<noteq> public \<and>
     (fst r = address \<or> (\<exists>p. fst r = address[0 := random_octet_1_to_254 rnd p]))"
  assume eq: "(if address = public
      then loop rnd public (address[0 := random_octet_1_to_254 rnd pos]) (pos + 4)
      else Some (address, pos)) = Some r"
  show "fst r \<noteq> public \<and>
     (fst r = address \<or> (\<exists>p. fst r = address[0 := random_octet_1_to_254 rnd p]))"
  proof (cases "address = public")
    case True
    with eq have "loop rnd public (address[0 := random_octet_1_to_254 rnd pos]) (pos + 4) = Some r"
      by simp
    from IH [OF this] show ?thesis by auto
  next
    case False
    with eq show ?thesis by auto
  qed
qed

lemma generate_nrpa_while_returns:
  assumes "random_octet_1_to_254 rnd (pos + 4 * k) \<noteq> public ! 0" and "address \<noteq> []"
  shows "\<exists>r. generate_nrpa_while rnd public address pos = Some r"
  using assms
proof (induction k arbitrary: address pos)
  case 0
  show ?case
  proof (cases "address = public")
    case True
    let ?a = "address[0 := random_octet_1_to_254 rnd pos]"
    have "?a ! 0 \<noteq> public ! 0" using 0 by simp
    then have "?a \<noteq> public" by metis
    then have "generate_nrpa_while rnd public ?a (pos + 4) = Some (?a, pos + 4)"
      by (subst generate_nrpa_while.simps) simp
    with True show ?thesis by (subst generate_nrpa_while.simps) simp
  next
    case False
    then show ?thesis by (subst generate_nrpa_while.simps) simp
  qed
next
  case (Suc k)
  show ?case
  proof (cases "address = public")
    case True
    let ?a = "address[0 := random_octet_1_to_254 rnd pos]"
    have "random_octet_1_to_254 rnd (pos + 4 + 4 * k) \<noteq> public ! 0" using Suc(2) by (simp add: add.assoc)
    moreover have "?a \<noteq> []" using Suc(3) by simp
    ultimately have "\<exists>r. generate_nrpa_while rnd public ?a (pos + 4) = Some r"
      by (rule Suc.IH)
    with True show ?thesis by (subst generate_nrpa_while.simps) simp
  next
    case False
    then show ?thesis by (subst generate_nrpa_while.simps) simp
  qed
qed

lemma generate_nrpa_while_stuck:
  assumes "\<forall>p. random_octet_1_to_254 rnd p = public ! 0"
  shows "generate_nrpa_while rnd public public pos = None"
proof (rule ccontr)
  assume "generate_nrpa_while rnd public public pos \<noteq> None"
  then obtain r where r: "generate_nrpa_while rnd public public pos = Some r" by blast
  have "rnd' = rnd \<and> public' = public \<and> address = public \<longrightarrow> False"
    if "generate_nrpa_while rnd' public' address pos' = Some r'" for rnd' public' address pos' r'
  proof (rule generate_nrpa_while.raw_induct
      [where P = "\<lambda>rnd' public' address pos' r'.
         rnd' = rnd \<and> public' = public \<and> address = public \<longrightarrow> False", OF _ that])
    fix loop :: "random_source \<Rightarrow> Address \<Rightarrow> Address \<Rightarrow> nat \<Rightarrow> (Address \<times> nat) option"
    fix rnd' public' address pos' r'
    assume IH: "\<And>rnd' public' address pos' r'. loop rnd' public' address pos' = Some r' \<Longrightarrow>
       rnd' = rnd \<and> public' = public \<and> address = public \<longrightarrow> False"
    assume eq: "(if address = public'
      then loop rnd' public' (address[0 := random_octet_1_to_254 rnd' pos']) (pos' + 4)
      else Some (address, pos')) = Some r'"
    show "rnd' = rnd \<and> public' = public \<and> address = public \<longrightarrow> False"
    proof
      assume a: "rnd' = rnd \<and> public' = public \<and> address = public"
      then have "address[0 := random_octet_1_to_254 rnd' pos'] = public"
        using assms by (simp add: list_update_id)
      with a eq have "loop rnd public public (pos' + 4) = Some r'" by simp
      from IH [OF this] show False by simp
    qed
  qed
  from this [OF r] show False by simp
qed

subsection \<open>Non-resolvable addresses: the function\<close>

lemma generate_nrpa_frame:
  "generate_nrpa rnd s = Inr (a, s') \<Longrightarrow> \<exists>n. s' = s\<lparr>random_drawn := n\<rparr>"
  by (auto simp add: generate_nrpa_def Let_def split: if_splits option.splits prod.splits)

lemma generate_nrpa_unfold:
  obtains random pos where "length random = 6"
    and "\<not> all_0_or_all_1 (random_bits_nrpa random)"
    and "generate_nrpa rnd s =
          (case generate_nrpa_while rnd (public_address s) random pos of
             None \<Rightarrow> Inl Loop_never_ends
           | Some (address, pos') \<Rightarrow> Inr (address, s\<lparr>random_drawn := pos'\<rparr>))"
proof -
  define random1 where "random1 = (GenerateRandom_octets 6 rnd (random_drawn s))
      [5 := GenerateRandom_octets 6 rnd (random_drawn s) ! 5 AND NOT BLE_ADDR_MASK]"
  define degenerate where "degenerate \<longleftrightarrow>
      (random1 ! 0 = 0x00 \<and> random1 ! 1 = 0x00 \<and> random1 ! 2 = 0x00 \<and>
       random1 ! 3 = 0x00 \<and> random1 ! 4 = 0x00 \<and> random1 ! 5 = 0x00) \<or>
      (random1 ! 0 = 0xFF \<and> random1 ! 1 = 0xFF \<and> random1 ! 2 = 0xFF \<and>
       random1 ! 3 = 0xFF \<and> random1 ! 4 = 0xFF \<and> random1 ! 5 = 0x3F)"
  define random where "random = (if degenerate
      then random1[0 := random_octet_1_to_254 rnd (random_drawn s + 6)] else random1)"
  define pos where "pos = (if degenerate then random_drawn s + 6 + 4 else random_drawn s + 6)"
  have len: "length random = 6" "length random1 = 6"
    by (simp_all add: random_def random1_def octets6)
  have top: "random1 ! 5 AND 0x3F = random1 ! 5"
    by (simp add: random1_def octets6 mask_type_bits2)
  have good: "\<not> all_0_or_all_1 (random_bits_nrpa random)"
  proof (cases degenerate)
    case True
    then have "random ! 0 = random_octet_1_to_254 rnd (random_drawn s + 6)"
      using len by (simp add: random_def)
    then show ?thesis
      using random_octet_not_0 [of rnd "random_drawn s + 6"] random_octet_not_FF [of rnd "random_drawn s + 6"]
      by (auto simp add: random_bits_nrpa_def all_0_or_all_1_def)
  next
    case False
    then have "random = random1" by (simp add: random_def)
    with False top show ?thesis
      by (auto simp add: random_bits_nrpa_def all_0_or_all_1_def degenerate_def)
  qed
  have step: "generate_nrpa rnd s =
     (case (if degenerate
            then (random1[0 := random_octet_1_to_254 rnd (random_drawn s + 6)],
                  s\<lparr>random_drawn := random_drawn s + 6 + 4\<rparr>)
            else (random1, s\<lparr>random_drawn := random_drawn s + 6\<rparr>)) of
        (random, s2) \<Rightarrow>
          (case generate_nrpa_while rnd (public_address s2) random (random_drawn s2) of
             None \<Rightarrow> Inl Loop_never_ends
           | Some (address, pos) \<Rightarrow> Inr (address, s2\<lparr>random_drawn := pos\<rparr>)))"
    unfolding generate_nrpa_def Let_def degenerate_def random1_def by simp
  have "generate_nrpa rnd s =
          (case generate_nrpa_while rnd (public_address s) random pos of
             None \<Rightarrow> Inl Loop_never_ends
           | Some (address, pos') \<Rightarrow> Inr (address, s\<lparr>random_drawn := pos'\<rparr>))"
    by (cases degenerate) (simp_all add: step random_def pos_def split: option.splits)
  with len(1) good show ?thesis using that by blast
qed

lemma generate_nrpa_returns:
  assumes "fair_random rnd (public_address s ! 0)"
  shows "\<exists>a s'. generate_nrpa rnd s = Inr (a, s')"
proof -
  obtain random pos where len: "length random = 6"
    and eq: "generate_nrpa rnd s =
          (case generate_nrpa_while rnd (public_address s) random pos of
             None \<Rightarrow> Inl Loop_never_ends
           | Some (address, pos') \<Rightarrow> Inr (address, s\<lparr>random_drawn := pos'\<rparr>))"
    by (rule generate_nrpa_unfold)
  from assms obtain k where "random_octet_1_to_254 rnd (pos + 4 * k) \<noteq> public_address s ! 0"
    unfolding fair_random_def by blast
  moreover have "random \<noteq> []" using len by auto
  ultimately obtain r where "generate_nrpa_while rnd (public_address s) random pos = Some r"
    using generate_nrpa_while_returns by blast
  then show ?thesis using eq by (cases r) simp
qed

lemma generate_nrpa_result:
  assumes "generate_nrpa rnd s = Inr (a, s')"
  shows "\<not> all_0_or_all_1 (random_bits_nrpa a) \<and> a \<noteq> public_address s"
proof -
  obtain random pos where len: "length random = 6"
    and good: "\<not> all_0_or_all_1 (random_bits_nrpa random)"
    and eq: "generate_nrpa rnd s =
          (case generate_nrpa_while rnd (public_address s) random pos of
             None \<Rightarrow> Inl Loop_never_ends
           | Some (address, pos') \<Rightarrow> Inr (address, s\<lparr>random_drawn := pos'\<rparr>))"
    by (rule generate_nrpa_unfold)
  from assms eq obtain r where r: "generate_nrpa_while rnd (public_address s) random pos = Some r"
    and a: "a = fst r"
    by (auto split: option.splits)
  from generate_nrpa_while_result [OF r]
  have ne: "a \<noteq> public_address s"
    and shape: "a = random \<or> (\<exists>p. a = random[0 := random_octet_1_to_254 rnd p])"
    using a by auto
  from shape have "\<not> all_0_or_all_1 (random_bits_nrpa a)"
  proof
    assume "a = random" with good show ?thesis by simp
  next
    assume "\<exists>p. a = random[0 := random_octet_1_to_254 rnd p]"
    then obtain p where "a = random[0 := random_octet_1_to_254 rnd p]" by blast
    then have "a ! 0 = random_octet_1_to_254 rnd p" using len by simp
    then show ?thesis
      using random_octet_not_0 [of rnd p] random_octet_not_FF [of rnd p]
      by (auto simp add: random_bits_nrpa_def all_0_or_all_1_def)
  qed
  with ne show ?thesis by simp
qed

text \<open>
  The loop can run for ever: with a generator that only yields zero octets every redrawn
  octet is 1, and a public address 01:00:00:00:00:00 is met again at each turn.
\<close>

lemma stuck_example:
  "generate_nrpa zero_random (new_LeAddressManager [0x01, 0x00, 0x00, 0x00, 0x00, 0x00])
     = Inl Loop_never_ends"
proof -
  have one: "random_octet_1_to_254 zero_random p = 1" for p
    by (simp add: random_octet_1_to_254_def GenerateRandom_uint32_def zero_random_def)
  have "generate_nrpa_while zero_random [0x01, 0x00, 0x00, 0x00, 0x00, 0x00]
          [0x01, 0x00, 0x00, 0x00, 0x00, 0x00] pos = None" for pos
    by (rule generate_nrpa_while_stuck) (simp add: one)
  moreover have "GenerateRandom_octets 6 zero_random 0 = [0, 0, 0, 0, 0, 0]"
    by (simp add: octets6 zero_random_def)
  ultimately show ?thesis
    by (simp add: generate_nrpa_def Let_def new_LeAddressManager_def BLE_ADDR_MASK_def one)
qed

lemma fair_zero_random: "octet \<noteq> 1 \<Longrightarrow> fair_random zero_random octet"
  by (simp add: fair_random_def random_octet_1_to_254_def GenerateRandom_uint32_def zero_random_def)

lemma generate_rpa_resolvable_example:
  "generate_rpa example_aes zero_random (new_LeAddressManager example_public_address)
   = ([0, 0, 0, 1, 0, 0x40], (new_LeAddressManager example_public_address)\<lparr>random_drawn := 7\<rparr>)"
  by code_simp

lemma redraw_example: "random_octet_1_to_254 counting_random 6 = 125"
  by code_simp

lemma generate_nrpa_while_example:
  "generate_nrpa_while counting_random [0, 1, 2, 3, 4, 5] [0, 1, 2, 3, 4, 5] 6
    = Some ([125, 1, 2, 3, 4, 5], 10)"
  by (subst generate_nrpa_while.simps, subst generate_nrpa_while.simps) (simp add: redraw_example)

lemma generate_nrpa_example:
  "generate_nrpa counting_random (new_LeAddressManager example_public_address)
   = Inr ([125, 1, 2, 3, 4, 5], (new_LeAddressManager example_public_address)\<lparr>random_drawn := 10\<rparr>)"
proof -
  have "GenerateRandom_octets 6 counting_random 0 = [0, 1, 2, 3, 4, 5]"
    by (simp add: octets6 counting_random_def)
  then show ?thesis
    by (simp add: generate_nrpa_def Let_def new_LeAddressManager_def example_public_address_def
          BLE_ADDR_MASK_def generate_nrpa_while_example)
qed

text \<open>
  Claim C8. Whatever octets the random generator yields, the random bits of the address
  that \<open>generate_rpa\<close> returns, and of the address that \<open>generate_nrpa\<close> returns, are
  neither all 0 nor all 1 once the type bits are masked, and the address that
  \<open>generate_nrpa\<close> returns is not the public address. \<open>generate_rpa\<close> always returns;
  \<open>generate_nrpa\<close> returns whenever the generator is fair to the first octet of the
  public address.
\<close>

theorem generated_addresses_not_degenerate:
  "\<not> all_0_or_all_1 (random_bits_rpa (fst (generate_rpa aes rnd s))) \<and>
   (\<forall>a s'. generate_nrpa rnd s = Inr (a, s') \<longrightarrow>
      \<not> all_0_or_all_1 (random_bits_nrpa a) \<and> a \<noteq> public_address s) \<and>
   (fair_random rnd (public_address s ! 0) \<longrightarrow> (\<exists>a s'. generate_nrpa rnd s = Inr (a, s')))"
  using generate_rpa_not_degenerate generate_nrpa_result generate_nrpa_returns by blast

theorem generated_addresses_not_degenerate_witness:
  "fair_random zero_random (public_address (new_LeAddressManager example_public_address) ! 0) \<and>
   generate_nrpa zero_random (new_LeAddressManager example_public_address) =
     Inr ([1, 0, 0, 0, 0, 0], (new_LeAddressManager example_public_address)\<lparr>random_drawn := 10\<rparr>) \<and>
   generate_nrpa counting_random (new_LeAddressManager example_public_address) =
     Inr ([125, 1, 2, 3, 4, 5], (new_LeAddressManager example_public_address)\<lparr>random_drawn := 10\<rparr>) \<and>
   \<not> all_0_or_all_1 (random_bits_nrpa [125, 1, 2, 3, 4, 5]) \<and>
   [125, 1, 2, 3, 4, 5] \<noteq> public_address (new_LeAddressManager example_public_address) \<and>
   generate_rpa example_aes zero_random (new_LeAddressManager example_public_address) =
     ([0, 0, 0, 1, 0, 0x40], (new_LeAddressManager example_public_address)\<lparr>random_drawn := 7\<rparr>) \<and>
   \<not> all_0_or_all_1 (random_bits_rpa [0, 0, 0, 1, 0, 0x40])"
proof -
  let ?s = "new_LeAddressManager example_public_address"
  have fair: "fair_random zero_random (public_address ?s ! 0)"
    by (rule fair_zero_random) (simp add: new_LeAddressManager_def example_public_address_def)
  have one: "random_octet_1_to_254 zero_random p = 1" for p
    by (simp add: random_octet_1_to_254_def GenerateRandom_uint32_def zero_random_def)
  have "generate_nrpa_while zero_random [0, 1, 2, 3, 4, 5] [1, 0, 0, 0, 0, 0] 10
          = Some ([1, 0, 0, 0, 0, 0], 10)"
    by (subst generate_nrpa_while.simps) simp
  moreover have "GenerateRandom_octets 6 zero_random 0 = [0, 0, 0, 0, 0, 0]"
    by (simp add: octets6 zero_random_def)
  ultimately have z: "generate_nrpa zero_random ?s = Inr ([1, 0, 0, 0, 0, 0], ?s\<lparr>random_drawn := 10\<rparr>)"
    by (simp add: generate_nrpa_def Let_def new_LeAddressManager_def example_public_address_def
          BLE_ADDR_MASK_def one)
  show ?thesis
    using generated_addresses_not_degenerate [of example_aes zero_random ?s]
      generated_addresses_not_degenerate [of example_aes counting_random ?s]
      fair z generate_nrpa_example generate_rpa_resolvable_example
    by simp
qed

section \<open>The address manager: the rotation\<close>

lemma c_rem_nonneg: "0 \<le> a \<Longrightarrow> 0 < b \<Longrightarrow> c_rem a b = a mod b"
  by (cases "a = 0") (simp_all add: c_rem_def)

lemma get_next_interval_value:
  assumes "rotation_interval_ok s"
  shows "\<exists>delay. get_next_private_address_interval_ms rnd s =
             Inr (delay, s\<lparr>random_drawn := random_drawn s + 4\<rparr>) \<and>
           delay = minimum_rotation_time s +
                     uint (GenerateRandom_uint32 rnd (random_drawn s)) mod
                       (maximum_rotation_time s - minimum_rotation_time s) \<and>
           minimum_rotation_time s \<le> delay \<and> delay < maximum_rotation_time s"
proof -
  let ?d = "maximum_rotation_time s - minimum_rotation_time s"
  let ?r = "uint (GenerateRandom_uint32 rnd (random_drawn s))"
  have d: "0 < ?d" and i: "in_int64 ?d"
    and m: "in_int64 (minimum_rotation_time s)" "in_int64 (maximum_rotation_time s)"
    using assms by (simp_all add: rotation_interval_ok_def)
  have rem: "c_rem ?r ?d = ?r mod ?d" using d by (simp add: c_rem_nonneg)
  have lo: "0 \<le> ?r mod ?d" and hi: "?r mod ?d < ?d" using d by simp_all
  have "in_int64 (minimum_rotation_time s + ?r mod ?d)"
    using m lo hi by (simp add: in_int64_def)
  then show ?thesis
    using i d rem lo hi by (simp add: get_next_private_address_interval_ms_def Let_def)
qed

lemma get_next_frame:
  "get_next_private_address_interval_ms rnd s = Inr (d, s1) \<Longrightarrow>
     s1 = s\<lparr>random_drawn := random_drawn s + 4\<rparr>"
  by (auto simp add: get_next_private_address_interval_ms_def Let_def split: if_splits)

lemma rotate_not_rotating:
  "\<not> rotating (address_policy s) \<Longrightarrow> rotate_random_address aes rnd s = Inr s"
  by (simp add: rotate_random_address_def rotating_def)

lemma rotate_result:
  assumes "rotate_random_address aes rnd s = Inr s'" and "rotating (address_policy s)"
  shows "cached_commands s' = cached_commands s \<and> callback_calls s' = callback_calls s \<and>
         registered_clients s' = registered_clients s \<and> address_policy s' = address_policy s \<and>
         (\<exists>address. enqueued s' = enqueued s @ [Some (LeSetRandomAddressBuilder address)] \<and>
                    le_address s' = (address, RANDOM_DEVICE_ADDRESS)) \<and>
         (\<exists>delay s1. get_next_private_address_interval_ms rnd s = Inr (delay, s1) \<and>
                      address_rotation_alarm s' = Some (Scheduled delay))"
proof -
  from assms obtain al where al: "address_rotation_alarm s = Some al"
    by (auto simp add: rotate_random_address_def rotating_def split: option.splits if_splits)
  from assms al obtain delay s1 where g: "get_next_private_address_interval_ms rnd s = Inr (delay, s1)"
    by (auto simp add: rotate_random_address_def rotating_def split: sum.splits if_splits)
  have s1: "s1 = s\<lparr>random_drawn := random_drawn s + 4\<rparr>" using get_next_frame [OF g] .
  let ?s2 = "s1\<lparr>address_rotation_alarm := Some (Scheduled delay)\<rparr>"
  show ?thesis
  proof (cases "address_policy s = USE_RESOLVABLE_ADDRESS")
    case True
    obtain a s3 where r: "generate_rpa aes rnd ?s2 = (a, s3)" by (cases "generate_rpa aes rnd ?s2")
    obtain n where "s3 = ?s2\<lparr>random_drawn := n\<rparr>"
      using generate_rpa_frame [of aes rnd ?s2] r by auto
    moreover have "s' = s3\<lparr>enqueued := enqueued s3 @ [Some (LeSetRandomAddressBuilder a)],
                                   le_address := (a, RANDOM_DEVICE_ADDRESS)\<rparr>"
      using assms(1) al g r True s1 by (simp add: rotate_random_address_def Let_def)
    ultimately show ?thesis using s1 g by simp
  next
    case False
    then have nr: "address_policy s = USE_NON_RESOLVABLE_ADDRESS"
      using assms(2) by (simp add: rotating_def)
    from assms(1) al g nr s1 obtain a s3 where r: "generate_nrpa rnd ?s2 = Inr (a, s3)"
      and s': "s' = s3\<lparr>enqueued := enqueued s3 @ [Some (LeSetRandomAddressBuilder a)],
                                   le_address := (a, RANDOM_DEVICE_ADDRESS)\<rparr>"
      by (auto simp add: rotate_random_address_def Let_def split: sum.splits)
    obtain n where "s3 = ?s2\<lparr>random_drawn := n\<rparr>"
      using generate_nrpa_frame [OF r] by auto
    with s' show ?thesis using s1 g by simp
  qed
qed

lemma rotate_returns:
  assumes "rotating (address_policy s)" and "address_rotation_alarm s \<noteq> None"
    and "rotation_interval_ok s"
    and "address_policy s = USE_NON_RESOLVABLE_ADDRESS \<longrightarrow> fair_random rnd (public_address s ! 0)"
  shows "\<exists>s'. rotate_random_address aes rnd s = Inr s'"
proof -
  obtain delay where g: "get_next_private_address_interval_ms rnd s =
             Inr (delay, s\<lparr>random_drawn := random_drawn s + 4\<rparr>)"
    using get_next_interval_value [OF assms(3), of rnd] by blast
  let ?s2 = "s\<lparr>random_drawn := random_drawn s + 4, address_rotation_alarm := Some (Scheduled delay)\<rparr>"
  show ?thesis
  proof (cases "address_policy s = USE_RESOLVABLE_ADDRESS")
    case True
    then show ?thesis
      using assms(2) g
      by (auto simp add: rotate_random_address_def Let_def split: prod.splits)
  next
    case False
    then have nr: "address_policy s = USE_NON_RESOLVABLE_ADDRESS"
      using assms(1) by (simp add: rotating_def)
    with assms(4) have "fair_random rnd (public_address ?s2 ! 0)" by simp
    then obtain a s3 where "generate_nrpa rnd ?s2 = Inr (a, s3)"
      using generate_nrpa_returns by blast
    then show ?thesis
      using assms(2) g nr
      by (auto simp add: rotate_random_address_def Let_def)
  qed
qed

text \<open>
  Claim C9, amended. The alarm is rearmed by \<open>rotate_random_address\<close>, with the delay
  that \<open>get_next_private_address_interval_ms\<close> returns. When the minimum rotation time
  is below the maximum (both 64-bit counts of milliseconds, and their difference too),
  that delay is the minimum plus the remainder of a 32-bit random draw by the difference
  of the two: it is at least the minimum and below the maximum.
\<close>

theorem next_interval_in_range:
  assumes "rotation_interval_ok s"
  shows "\<exists>delay. get_next_private_address_interval_ms rnd s =
             Inr (delay, s\<lparr>random_drawn := random_drawn s + 4\<rparr>) \<and>
           delay = minimum_rotation_time s +
                     uint (GenerateRandom_uint32 rnd (random_drawn s)) mod
                       (maximum_rotation_time s - minimum_rotation_time s) \<and>
           minimum_rotation_time s \<le> delay \<and> delay < maximum_rotation_time s \<and>
           (\<forall>aes s'. rotating (address_policy s) \<and> rotate_random_address aes rnd s = Inr s' \<longrightarrow>
              address_rotation_alarm s' = Some (Scheduled delay))"
proof -
  obtain delay where g: "get_next_private_address_interval_ms rnd s =
             Inr (delay, s\<lparr>random_drawn := random_drawn s + 4\<rparr>)"
    and v: "delay = minimum_rotation_time s +
                     uint (GenerateRandom_uint32 rnd (random_drawn s)) mod
                       (maximum_rotation_time s - minimum_rotation_time s)"
    and b: "minimum_rotation_time s \<le> delay" "delay < maximum_rotation_time s"
    using get_next_interval_value [OF assms, of rnd] by blast
  have "address_rotation_alarm s' = Some (Scheduled delay)"
    if "rotating (address_policy s)" and "rotate_random_address aes rnd s = Inr s'" for aes s'
    using rotate_result [OF that(2) that(1)] g by auto
  with g v b show ?thesis by blast
qed

lemma uint32_example: "uint (GenerateRandom_uint32 counting_random 0) = 50462976"
  by code_simp

theorem next_interval_in_range_witness:
  "rotation_interval_ok (one_client USE_RESOLVABLE_ADDRESS PAUSED []) \<and>
   get_next_private_address_interval_ms counting_random (one_client USE_RESOLVABLE_ADDRESS PAUSED [])
     = Inr (1976, (one_client USE_RESOLVABLE_ADDRESS PAUSED [])\<lparr>random_drawn := 4\<rparr>)"
  using next_interval_in_range [of "one_client USE_RESOLVABLE_ADDRESS PAUSED []" counting_random]
  by (simp add: rotation_interval_ok_def in_int64_def example_defs uint32_example)

text \<open>
  The claim as it stands allows the two rotation times to be equal. With both set to
  1000 ms the remainder is taken by zero: no delay is computed, and the first rotation,
  at the first client's acknowledgement, does not complete.
\<close>

theorem equal_rotation_times_counterexample:
  "SetPrivacyPolicyForInitiatorAddress (new_LeAddressManager example_public_address)
     USE_RESOLVABLE_ADDRESS (example_public_address, PUBLIC_DEVICE_ADDRESS) (replicate 16 0x00)
     1000 1000 = Inr ((configured USE_RESOLVABLE_ADDRESS)\<lparr>maximum_rotation_time := 1000\<rparr>) \<and>
   get_next_private_address_interval_ms zero_random
     ((configured USE_RESOLVABLE_ADDRESS)\<lparr>maximum_rotation_time := 1000\<rparr>) =
     Inl Remainder_by_zero \<and>
   ack_pause example_aes zero_random
     (register_client ((configured USE_RESOLVABLE_ADDRESS)\<lparr>maximum_rotation_time := 1000\<rparr>) 1) 1 =
     Inl Remainder_by_zero"
  by (simp add: get_next_private_address_interval_ms_def in_int64_def ack_pause_def
        handle_next_command_def rotate_random_address_def register_client_def
        prepare_to_rotate_def map_insert_def pause_registered_clients_def pause_client_def
        example_defs)

section \<open>The address manager: clients and cached commands\<close>

subsection \<open>Pause and resume requests\<close>

lemma fold_resume_client:
  "fold resume_client cs s = s\<lparr>callback_calls := callback_calls s @ map (OnResume \<circ> fst) cs\<rparr>"
  by (induction cs arbitrary: s) (simp_all add: resume_client_def)

lemma fold_pause_client:
  "fold pause_client cs s =
     s\<lparr>callback_calls := callback_calls s @
          map (OnPause \<circ> fst) (filter (\<lambda>c. snd c \<noteq> PAUSED \<and> snd c \<noteq> WAITING_FOR_PAUSE) cs)\<rparr>"
  by (induction cs arbitrary: s) (simp_all add: pause_client_def)

lemma pause_registered_clients_eq:
  "pause_registered_clients s =
     s\<lparr>callback_calls := callback_calls s @
          map (OnPause \<circ> fst)
            (filter (\<lambda>c. snd c \<noteq> PAUSED \<and> snd c \<noteq> WAITING_FOR_PAUSE) (registered_clients s))\<rparr>"
  by (simp add: pause_registered_clients_def fold_pause_client)


lemma pause_registered_clients_keeps_map:
  "registered_clients (pause_registered_clients s) = registered_clients s"
  by (simp add: pause_registered_clients_eq)

text \<open>
  Claim C3. A manager is given the public-address policy and one client registers. A
  command for the connect list requests a pause. The claim is that the client is then
  recorded as \<open>WAITING_FOR_PAUSE\<close>. The client is notified, but the map still records
  it as \<open>RESUMED\<close>: the loop of \<open>pause_registered_clients\<close> assigns the new state to
  its copy of the entry. A second request therefore finds the client \<open>RESUMED\<close> and
  notifies it again.
\<close>

theorem pause_request_not_recorded:
  "registered_clients (register_client (configured USE_PUBLIC_ADDRESS) 1) = [(1, RESUMED)] \<and>
   registered_clients
     (AddDeviceToConnectList (register_client (configured USE_PUBLIC_ADDRESS) 1)
        0x00 example_peer_address) = [(1, RESUMED)] \<and>
   callback_calls
     (AddDeviceToConnectList (register_client (configured USE_PUBLIC_ADDRESS) 1)
        0x00 example_peer_address) = [OnPause 1] \<and>
   registered_clients
     (ClearConnectList
        (AddDeviceToConnectList (register_client (configured USE_PUBLIC_ADDRESS) 1)
           0x00 example_peer_address)) = [(1, RESUMED)] \<and>
   callback_calls
     (ClearConnectList
        (AddDeviceToConnectList (register_client (configured USE_PUBLIC_ADDRESS) 1)
           0x00 example_peer_address)) = [OnPause 1, OnPause 1]"
  by (simp add: register_client_def map_insert_def AddDeviceToConnectList_def
        ClearConnectList_def push_after_pause_def pause_registered_clients_def
        pause_client_def example_defs)

subsection \<open>Registration\<close>

lemma map_of_insort_new: "map_of m k = None \<Longrightarrow> map_of (insort_key fst (k, v) m) k = Some v"
  by (induction m) auto

lemma map_of_map_insert: "\<exists>y. map_of (map_insert k v m) k = Some y"
  by (cases "map_of m k") (simp_all add: map_insert_def map_of_insort_new)

text \<open>
  Claim C7, amended. A call of \<open>Register\<close> before any policy is set does not fail. It
  returns \<open>POLICY_NOT_SET\<close>; the client is in the map; a rotation is added to the
  cached commands; every client of the map that is neither \<open>PAUSED\<close> nor
  \<open>WAITING_FOR_PAUSE\<close> is asked to pause; nothing is sent to the controller.
\<close>

theorem register_before_policy:
  assumes "address_policy s = POLICY_NOT_SET"
  shows "\<exists>s'. Register s callback = (POLICY_NOT_SET, s') \<and>
           map_of (registered_clients s') callback \<noteq> None \<and>
           cached_commands s' =
             cached_commands s @ [\<lparr>command_type = ROTATE_RANDOM_ADDRESS, command_packet = None\<rparr>] \<and>
           callback_calls s' = callback_calls s @ map (OnPause \<circ> fst)
             (filter (\<lambda>c. snd c \<noteq> PAUSED \<and> snd c \<noteq> WAITING_FOR_PAUSE)
                (map_insert callback RESUMED (registered_clients s))) \<and>
           enqueued s' = enqueued s"
  using assms
  by (simp add: Register_def register_client_def prepare_to_rotate_def Let_def
        pause_registered_clients_eq map_of_map_insert)

theorem register_before_policy_witness:
  "address_policy (new_LeAddressManager example_public_address) = POLICY_NOT_SET \<and>
   fst (Register (new_LeAddressManager example_public_address) 7) = POLICY_NOT_SET \<and>
   map_of (registered_clients (snd (Register (new_LeAddressManager example_public_address) 7))) 7
     \<noteq> None \<and>
   cached_commands (snd (Register (new_LeAddressManager example_public_address) 7)) =
     [rotate_command] \<and>
   callback_calls (snd (Register (new_LeAddressManager example_public_address) 7)) = [OnPause 7]"
  using register_before_policy [of "new_LeAddressManager example_public_address" 7]
  by (auto simp add: map_insert_def example_defs)

text \<open>
  The claim as it stands says that such a call fails. On a new manager it returns, with
  the client admitted.
\<close>

theorem register_before_policy_counterexample:
  "Register (new_LeAddressManager example_public_address) 1 =
     (POLICY_NOT_SET,
      (new_LeAddressManager example_public_address)
        \<lparr>registered_clients := [(1, RESUMED)], cached_commands := [rotate_command],
         callback_calls := [OnPause 1]\<rparr>)"
  by (simp add: Register_def register_client_def prepare_to_rotate_def map_insert_def
        pause_registered_clients_def pause_client_def example_defs)

subsection \<open>Taking the next cached command\<close>

lemma handle_next_command_result:
  assumes "cached_commands s = command # remaining"
    and "handle_next_command aes rnd s = Inr s'"
  shows "cached_commands s' = remaining \<and> callback_calls s' = callback_calls s \<and>
         enqueued s' = enqueued s @ issued_for command s s'"
proof (cases "command_type command = ROTATE_RANDOM_ADDRESS")
  case False
  with assms show ?thesis by (auto simp add: handle_next_command_def issued_for_def)
next
  case True
  let ?s1 = "s\<lparr>cached_commands := remaining\<rparr>"
  from assms True have r: "rotate_random_address aes rnd ?s1 = Inr s'"
    by (simp add: handle_next_command_def)
  show ?thesis
  proof (cases "rotating (address_policy s)")
    case False
    with r have "s' = ?s1" by (simp add: rotate_not_rotating)
    with True False show ?thesis by (simp add: issued_for_def)
  next
    case rot: True
    then have "rotating (address_policy ?s1)" by simp
    from rotate_result [OF r this] True rot show ?thesis
      by (auto simp add: issued_for_def)
  qed
qed

lemma handle_next_command_returns:
  assumes "cached_commands s = command # remaining"
    and "command_type command \<noteq> ROTATE_RANDOM_ADDRESS \<or> \<not> rotating (address_policy s) \<or>
         (address_rotation_alarm s \<noteq> None \<and> rotation_interval_ok s \<and>
          (address_policy s = USE_NON_RESOLVABLE_ADDRESS \<longrightarrow> fair_random rnd (public_address s ! 0)))"
  shows "\<exists>s'. handle_next_command aes rnd s = Inr s'"
proof (cases "command_type command = ROTATE_RANDOM_ADDRESS")
  case False
  with assms(1) show ?thesis by (simp add: handle_next_command_def)
next
  case True
  let ?s1 = "s\<lparr>cached_commands := remaining\<rparr>"
  have eq: "handle_next_command aes rnd s = rotate_random_address aes rnd ?s1"
    using assms(1) True by (simp add: handle_next_command_def)
  show ?thesis
  proof (cases "rotating (address_policy s)")
    case False
    then show ?thesis by (simp add: eq rotate_not_rotating)
  next
    case rot: True
    with assms(2) True have "rotating (address_policy ?s1)" "address_rotation_alarm ?s1 \<noteq> None"
      "rotation_interval_ok ?s1"
      "address_policy ?s1 = USE_NON_RESOLVABLE_ADDRESS \<longrightarrow> fair_random rnd (public_address ?s1 ! 0)"
      by (simp_all add: rotation_interval_ok_def)
    then show ?thesis unfolding eq by (rule rotate_returns)
  qed
qed

lemma resume_skipped_when_commands_cached:
  "cached_commands s \<noteq> [] \<Longrightarrow>
     resume_registered_clients aes rnd s = handle_next_command aes rnd s"
  by (simp add: resume_registered_clients_def)

text \<open>
  Claim C1, amended. Take a completion event that is valid and is not the completion of
  the static address. With no cached command, \<open>OnCommandComplete\<close> returns, every
  client of the map is told to resume, once, and nothing is sent to the controller.
  With a cached command, if \<open>OnCommandComplete\<close> returns then the front command is off
  the queue, no client is told to resume, and at most one packet is sent: the packet of
  the command, or, for a rotation, the new random address when the policy is resolvable
  or non-resolvable and nothing otherwise. It returns whenever the command is not a
  rotation, or the policy is not a rotating one, or the alarm exists, the rotation times
  are in order and, under the non-resolvable policy, the random generator is fair to the
  first octet of the public address.
\<close>

theorem completion_after_barrier:
  assumes "IsValid view"
    and "\<not> (GetCommandOpCode view = LE_SET_RANDOM_ADDRESS \<and> address_policy s = USE_STATIC_ADDRESS)"
  shows "(cached_commands s = [] \<longrightarrow>
            (\<exists>s'. OnCommandComplete aes rnd s view = Inr s' \<and>
                   callback_calls s' = callback_calls s @ map (OnResume \<circ> fst) (registered_clients s) \<and>
                   enqueued s' = enqueued s \<and> cached_commands s' = [])) \<and>
         (\<forall>command remaining. cached_commands s = command # remaining \<longrightarrow>
            (\<forall>s'. OnCommandComplete aes rnd s view = Inr s' \<longrightarrow>
                   cached_commands s' = remaining \<and> callback_calls s' = callback_calls s \<and>
                   enqueued s' = enqueued s @ issued_for command s s' \<and>
                   length (issued_for command s s') \<le> 1) \<and>
            (command_type command \<noteq> ROTATE_RANDOM_ADDRESS \<or> \<not> rotating (address_policy s) \<or>
             (address_rotation_alarm s \<noteq> None \<and> rotation_interval_ok s \<and>
              (address_policy s = USE_NON_RESOLVABLE_ADDRESS \<longrightarrow>
                 fair_random rnd (public_address s ! 0))) \<longrightarrow>
             (\<exists>s'. OnCommandComplete aes rnd s view = Inr s')))"
proof (intro conjI impI allI)
  assume "cached_commands s = []"
  then show "\<exists>s'. OnCommandComplete aes rnd s view = Inr s' \<and>
                   callback_calls s' = callback_calls s @ map (OnResume \<circ> fst) (registered_clients s) \<and>
                   enqueued s' = enqueued s \<and> cached_commands s' = []"
    using assms by (auto simp add: OnCommandComplete_def resume_registered_clients_def fold_resume_client)
next
  fix command remaining s'
  assume q: "cached_commands s = command # remaining" and r: "OnCommandComplete aes rnd s view = Inr s'"
  from assms q r have h: "handle_next_command aes rnd s = Inr s'"
    by (auto simp add: OnCommandComplete_def)
  from handle_next_command_result [OF q h]
  show "cached_commands s' = remaining" "callback_calls s' = callback_calls s"
    "enqueued s' = enqueued s @ issued_for command s s'"
    by simp_all
  show "length (issued_for command s s') \<le> 1" by (simp add: issued_for_def)
next
  fix command remaining
  assume q: "cached_commands s = command # remaining"
    and c: "command_type command \<noteq> ROTATE_RANDOM_ADDRESS \<or> \<not> rotating (address_policy s) \<or>
             (address_rotation_alarm s \<noteq> None \<and> rotation_interval_ok s \<and>
              (address_policy s = USE_NON_RESOLVABLE_ADDRESS \<longrightarrow>
                 fair_random rnd (public_address s ! 0)))"
  have "OnCommandComplete aes rnd s view = handle_next_command aes rnd s"
    using assms q by (auto simp add: OnCommandComplete_def)
  with handle_next_command_returns [OF q c] show "\<exists>s'. OnCommandComplete aes rnd s view = Inr s'"
    by simp
qed

lemma rotation_example:
  "OnCommandComplete example_aes zero_random
     ((one_client USE_RESOLVABLE_ADDRESS PAUSED [rotate_command])
        \<lparr>enqueued := [command_packet add_command]\<rparr>) add_complete =
   Inr ((one_client USE_RESOLVABLE_ADDRESS PAUSED [])
          \<lparr>le_address := ([0, 0, 0, 1, 0, 0x40], RANDOM_DEVICE_ADDRESS),
           address_rotation_alarm := Some (Scheduled 1000),
           enqueued := [command_packet add_command,
                        Some (LeSetRandomAddressBuilder [0, 0, 0, 1, 0, 0x40])],
           random_drawn := 11\<rparr>)"
  by code_simp

theorem completion_after_barrier_witness:
  "IsValid add_complete \<and>
   \<not> (GetCommandOpCode add_complete = LE_SET_RANDOM_ADDRESS \<and>
      address_policy ((one_client USE_RESOLVABLE_ADDRESS PAUSED [rotate_command])
        \<lparr>enqueued := [command_packet add_command]\<rparr>) = USE_STATIC_ADDRESS) \<and>
   OnCommandComplete example_aes zero_random
     ((one_client USE_RESOLVABLE_ADDRESS PAUSED [rotate_command])
        \<lparr>enqueued := [command_packet add_command]\<rparr>) add_complete =
   Inr ((one_client USE_RESOLVABLE_ADDRESS PAUSED [])
          \<lparr>le_address := ([0, 0, 0, 1, 0, 0x40], RANDOM_DEVICE_ADDRESS),
           address_rotation_alarm := Some (Scheduled 1000),
           enqueued := [command_packet add_command,
                        Some (LeSetRandomAddressBuilder [0, 0, 0, 1, 0, 0x40])],
           random_drawn := 11\<rparr>)"
  using completion_after_barrier [of add_complete
      "(one_client USE_RESOLVABLE_ADDRESS PAUSED [rotate_command])\<lparr>enqueued := [command_packet add_command]\<rparr>"
      example_aes zero_random] rotation_example
  by (simp add: example_defs)

text \<open>
  The claim as it stands says that the front command is issued. A manager with no policy
  gets a command for the connect list, then a client, which acknowledges the pause: the
  command is sent and a rotation stays cached. At the completion of the command the
  rotation is taken off the queue and nothing is sent to the controller.
\<close>

theorem rotation_dropped_counterexample:
  "ack_pause example_aes zero_random
     (register_client (AddDeviceToConnectList (new_LeAddressManager example_public_address)
        0x00 example_peer_address) 1) 1 =
     Inr ((one_client POLICY_NOT_SET PAUSED [rotate_command])
            \<lparr>enqueued := [command_packet add_command], callback_calls := [OnPause 1]\<rparr>) \<and>
   OnCommandComplete example_aes zero_random
     ((one_client POLICY_NOT_SET PAUSED [rotate_command])
        \<lparr>enqueued := [command_packet add_command], callback_calls := [OnPause 1]\<rparr>)
     add_complete =
     Inr ((one_client POLICY_NOT_SET PAUSED [])
            \<lparr>enqueued := [command_packet add_command], callback_calls := [OnPause 1]\<rparr>)"
  by (simp add: OnCommandComplete_def ack_pause_def handle_next_command_def
        rotate_random_address_def register_client_def prepare_to_rotate_def map_insert_def
        AddDeviceToConnectList_def push_after_pause_def pause_registered_clients_def
        pause_client_def example_defs)

subsection \<open>A pause acknowledged twice\<close>

text \<open>
  Claim C6, amended. When a client recorded as \<open>PAUSED\<close> acknowledges the pause again,
  the map does not change. If some client is not \<open>PAUSED\<close>, nothing else happens. If
  every client is \<open>PAUSED\<close>, the manager takes the next cached command as it does at
  the first acknowledgement: it fails when there is none.
\<close>

theorem ack_pause_when_paused:
  assumes "map_of (registered_clients s) callback = Some PAUSED"
  shows "(list_ex (\<lambda>client. snd client \<noteq> PAUSED) (registered_clients s) \<longrightarrow>
            ack_pause aes rnd s callback = Inr s) \<and>
         (\<not> list_ex (\<lambda>client. snd client \<noteq> PAUSED) (registered_clients s) \<longrightarrow>
            ack_pause aes rnd s callback = handle_next_command aes rnd s) \<and>
         (\<not> list_ex (\<lambda>client. snd client \<noteq> PAUSED) (registered_clients s) \<and> cached_commands s = [] \<longrightarrow>
            ack_pause aes rnd s callback = Inl ASSERT_cached_commands_not_empty)"
proof -
  have "AList.update callback PAUSED (registered_clients s) = registered_clients s"
    using assms by (rule update_triv)
  then have "s\<lparr>registered_clients := AList.update callback PAUSED (registered_clients s)\<rparr> = s"
    by simp
  then show ?thesis
    using assms by (auto simp add: ack_pause_def Let_def handle_next_command_def)
qed

theorem ack_pause_when_paused_witness:
  "map_of (registered_clients (one_client USE_PUBLIC_ADDRESS PAUSED [add_command])) 1 = Some PAUSED \<and>
   ack_pause example_aes zero_random (one_client USE_PUBLIC_ADDRESS PAUSED [add_command]) 1 =
     Inr ((one_client USE_PUBLIC_ADDRESS PAUSED [])\<lparr>enqueued := [command_packet add_command]\<rparr>)"
  using ack_pause_when_paused [of "one_client USE_PUBLIC_ADDRESS PAUSED [add_command]" 1
      example_aes zero_random]
  by (simp add: handle_next_command_def example_defs)

text \<open>
  The claim as it stands says that the second acknowledgement is a no-op. Under the
  public-address policy one client registers and a command for the connect list is
  cached. The client acknowledges the pause: the command is sent. It acknowledges
  again: the assertion of \<open>handle_next_command\<close> fails.
\<close>

theorem second_ack_pause_counterexample:
  "ack_pause example_aes zero_random
     (AddDeviceToConnectList (register_client (configured USE_PUBLIC_ADDRESS) 1)
        0x00 example_peer_address) 1 =
     Inr ((one_client USE_PUBLIC_ADDRESS PAUSED [])
            \<lparr>enqueued := [command_packet add_command], callback_calls := [OnPause 1]\<rparr>) \<and>
   ack_pause example_aes zero_random
     ((one_client USE_PUBLIC_ADDRESS PAUSED [])
        \<lparr>enqueued := [command_packet add_command], callback_calls := [OnPause 1]\<rparr>) 1 =
     Inl ASSERT_cached_commands_not_empty"
  by (simp add: ack_pause_def handle_next_command_def register_client_def map_insert_def
        AddDeviceToConnectList_def push_after_pause_def pause_registered_clients_def
        pause_client_def example_defs)

subsection \<open>Completions that do not decode or report an error\<close>

text \<open>
  Claim C5, amended. \<open>on_le_set_random_address_complete\<close> is fatal when the completion
  does not decode and when it reports a status other than success: no client is resumed
  and no command is issued. \<open>OnCommandComplete\<close> is not: it returns with nothing
  changed when the event is not valid, and it does not look at the status, so that a
  completion that reports an error is handled as one that reports success.
\<close>

theorem completion_validation:
  "(\<not> LeSetRandomAddressComplete_IsValid view \<longrightarrow>
      on_le_set_random_address_complete aes rnd s view = Inl LOG_ALWAYS_FATAL_invalid_packet) \<and>
   (LeSetRandomAddressComplete_IsValid view \<and> LeSetRandomAddressComplete_GetStatus view \<noteq> SUCCESS \<longrightarrow>
      on_le_set_random_address_complete aes rnd s view =
        Inl (LOG_ALWAYS_FATAL_error_code (LeSetRandomAddressComplete_GetStatus view))) \<and>
   (\<not> IsValid view \<longrightarrow> OnCommandComplete aes rnd s view = Inr s) \<and>
   OnCommandComplete aes rnd s (view\<lparr>LeSetRandomAddressComplete_IsValid := v,
                                      LeSetRandomAddressComplete_GetStatus := status\<rparr>)
     = OnCommandComplete aes rnd s view"
  by (simp add: on_le_set_random_address_complete_def OnCommandComplete_def)

theorem completion_validation_witness:
  "\<not> LeSetRandomAddressComplete_IsValid undecodable \<and>
   on_le_set_random_address_complete example_aes zero_random
     (one_client USE_RESOLVABLE_ADDRESS PAUSED []) undecodable = Inl LOG_ALWAYS_FATAL_invalid_packet \<and>
   LeSetRandomAddressComplete_GetStatus rotation_disallowed \<noteq> SUCCESS \<and>
   on_le_set_random_address_complete example_aes zero_random
     (one_client USE_RESOLVABLE_ADDRESS PAUSED []) rotation_disallowed =
       Inl (LOG_ALWAYS_FATAL_error_code COMMAND_DISALLOWED) \<and>
   \<not> IsValid undecodable \<and>
   OnCommandComplete example_aes zero_random
     (one_client USE_RESOLVABLE_ADDRESS PAUSED []) undecodable =
       Inr (one_client USE_RESOLVABLE_ADDRESS PAUSED [])"
  using completion_validation [of undecodable example_aes zero_random
      "one_client USE_RESOLVABLE_ADDRESS PAUSED []"]
    completion_validation [of rotation_disallowed example_aes zero_random
      "one_client USE_RESOLVABLE_ADDRESS PAUSED []"]
  by (simp add: example_defs)

text \<open>
  The claim as it stands says that every completion handler is fatal on such events.
  Under the resolvable policy one client registers and acknowledges the pause: the first
  random address is sent to the controller. \<open>OnCommandComplete\<close> gets the completion
  of that command with the status \<open>COMMAND_DISALLOWED\<close>: it returns and the client is
  told to resume. It gets an event that is not valid: it returns.
\<close>

lemma first_rotation_example:
  "ack_pause example_aes zero_random (register_client (configured USE_RESOLVABLE_ADDRESS) 1) 1 =
     Inr ((one_client USE_RESOLVABLE_ADDRESS PAUSED [])
            \<lparr>le_address := ([0, 0, 0, 1, 0, 0x40], RANDOM_DEVICE_ADDRESS),
             address_rotation_alarm := Some (Scheduled 1000),
             enqueued := [Some (LeSetRandomAddressBuilder [0, 0, 0, 1, 0, 0x40])],
             callback_calls := [OnPause 1], random_drawn := 11\<rparr>)"
  by code_simp

theorem failed_completion_counterexample:
  "ack_pause example_aes zero_random (register_client (configured USE_RESOLVABLE_ADDRESS) 1) 1 =
     Inr ((one_client USE_RESOLVABLE_ADDRESS PAUSED [])
            \<lparr>le_address := ([0, 0, 0, 1, 0, 0x40], RANDOM_DEVICE_ADDRESS),
             address_rotation_alarm := Some (Scheduled 1000),
             enqueued := [Some (LeSetRandomAddressBuilder [0, 0, 0, 1, 0, 0x40])],
             callback_calls := [OnPause 1], random_drawn := 11\<rparr>) \<and>
   OnCommandComplete example_aes zero_random
     ((one_client USE_RESOLVABLE_ADDRESS PAUSED [])
        \<lparr>le_address := ([0, 0, 0, 1, 0, 0x40], RANDOM_DEVICE_ADDRESS),
         address_rotation_alarm := Some (Scheduled 1000),
         enqueued := [Some (LeSetRandomAddressBuilder [0, 0, 0, 1, 0, 0x40])],
         callback_calls := [OnPause 1], random_drawn := 11\<rparr>)
     rotation_disallowed =
     Inr ((one_client USE_RESOLVABLE_ADDRESS PAUSED [])
            \<lparr>le_address := ([0, 0, 0, 1, 0, 0x40], RANDOM_DEVICE_ADDRESS),
             address_rotation_alarm := Some (Scheduled 1000),
             enqueued := [Some (LeSetRandomAddressBuilder [0, 0, 0, 1, 0, 0x40])],
             callback_calls := [OnPause 1, OnResume 1], random_drawn := 11\<rparr>) \<and>
   OnCommandComplete example_aes zero_random (one_client USE_RESOLVABLE_ADDRESS PAUSED [])
      undecodable =
     Inr (one_client USE_RESOLVABLE_ADDRESS PAUSED [])"
  using first_rotation_example
  by (simp add: OnCommandComplete_def resume_registered_clients_def resume_client_def
        example_defs)

end
